theory Spec2Isabelle
  imports Main
begin

section \<open>JavaScript strings and the POSIX path module\<close>

text \<open>
  The theory follows the routes module of the server (the version with the path
  guard): \<open>validateAndSanitizePath\<close> and \<open>createSafeOutputPath\<close>, the route that starts a
  processing job and the job's continuations, the streaming route and the download
  route.  Line numbers in the text are those of that module in the source listing.

  Strings are lists of characters.  The functions of this section model the library
  calls the server makes on strings and paths (startsWith and includes of String.prototype,
  and path.resolve, path.join, path.extname, path.basename of Node's POSIX path module,
  whose separator is the forward slash).  The working directory of the process,
  \<open>process.cwd()\<close>, is the parameter \<open>cwd\<close> of everything that depends on it.
\<close>

definition startsWith :: "string \<Rightarrow> string \<Rightarrow> bool" where
  "startsWith s p = (take (length p) s = p)"

fun str_includes :: "string \<Rightarrow> string \<Rightarrow> bool" where
  "str_includes [] sub = (sub = [])"
| "str_includes (c # cs) sub = (startsWith (c # cs) sub \<or> str_includes cs sub)"

definition toLowerCase_char :: "char \<Rightarrow> char" where
  "toLowerCase_char c =
     (let n = of_char c :: nat in if 65 \<le> n \<and> n \<le> 90 then char_of (n + 32) else c)"

definition toLowerCase :: "string \<Rightarrow> string" where
  "toLowerCase s = map toLowerCase_char s"

text \<open>\<open>s.split(sep)\<close> for a one-character separator: never the empty list.\<close>

fun str_split :: "char \<Rightarrow> string \<Rightarrow> string list" where
  "str_split sep [] = [[]]"
| "str_split sep (c # cs) =
     (if c = sep then [] # str_split sep cs
      else (case str_split sep cs of [] \<Rightarrow> [[c]] | seg # segs \<Rightarrow> (c # seg) # segs))"

fun str_join :: "string \<Rightarrow> string list \<Rightarrow> string" where
  "str_join sep [] = []"
| "str_join sep [s] = s"
| "str_join sep (s # t # ss) = s @ sep @ str_join sep (t # ss)"

text \<open>
  normalizeString of Node's path module walks the segments between separators with a
  stack: an empty segment and \<open>.\<close> are skipped, \<open>..\<close> removes the segment on top of the
  stack (when there is one and it is no \<open>..\<close> itself) and is otherwise kept only when
  the path may climb above its root, every other segment is pushed.
\<close>

definition normalizeStep :: "bool \<Rightarrow> string list \<Rightarrow> string \<Rightarrow> string list" where
  "normalizeStep allowAboveRoot res seg =
     (if seg = [] \<or> seg = ''.'' then res
      else if seg = ''..'' then
        (if res \<noteq> [] \<and> last res \<noteq> ''..'' then butlast res
         else if allowAboveRoot then res @ [''..''] else res)
      else res @ [seg])"

definition normalizeString :: "string \<Rightarrow> bool \<Rightarrow> string" where
  "normalizeString p allowAboveRoot =
     str_join ''/'' (foldl (normalizeStep allowAboveRoot) [] (str_split CHR ''/'' p))"

definition isAbsolute :: "string \<Rightarrow> bool" where
  "isAbsolute p = (case p of [] \<Rightarrow> False | c # _ \<Rightarrow> c = CHR ''/'')"

text \<open>
  \<open>path.resolve(p)\<close> with one argument, the working directory \<open>cwd\<close> of the process
  being a parameter: an absolute \<open>p\<close> is normalised as it is, any other is appended to
  \<open>cwd\<close> first; an empty \<open>p\<close> is skipped.
\<close>

definition path_resolve :: "string \<Rightarrow> string \<Rightarrow> string" where
  "path_resolve cwd p =
     (let tail = (if p = [] then [] else p @ ''/'');
          whole = (if isAbsolute p \<or> cwd = [] then tail else cwd @ ''/'' @ tail);
          resolvedAbsolute = (isAbsolute p \<or> isAbsolute cwd)
      in if resolvedAbsolute then CHR ''/'' # normalizeString whole False
         else (let r = normalizeString whole True in if r = [] then ''.'' else r))"

definition path_normalize :: "string \<Rightarrow> string" where
  "path_normalize p =
     (if p = [] then ''.''
      else
        (let trailingSeparator = (last p = CHR ''/'');
             r = normalizeString p (\<not> isAbsolute p)
         in if r = [] then (if isAbsolute p then ''/'' else if trailingSeparator then ''./'' else ''.'')
            else (let r' = (if trailingSeparator then r @ ''/'' else r)
                  in if isAbsolute p then CHR ''/'' # r' else r')))"

text \<open>\<open>path.join(a, b)\<close>: the non-empty arguments joined by the separator, normalised.\<close>

definition path_join :: "string \<Rightarrow> string \<Rightarrow> string" where
  "path_join a b =
     (let joined = str_join ''/'' (filter (\<lambda>s. s \<noteq> []) [a, b])
      in if joined = [] then ''.'' else path_normalize joined)"

text \<open>The last component of a path, trailing separators ignored.\<close>

definition lastComponent :: "string \<Rightarrow> string" where
  "lastComponent p =
     rev (takeWhile (\<lambda>c. c \<noteq> CHR ''/'') (dropWhile (\<lambda>c. c = CHR ''/'') (rev p)))"

text \<open>
  \<open>path.extname(p)\<close>: from the last dot of the last component to its end; empty when
  that component has no dot, when its only dot is its first character, or when it is
  \<open>..\<close>.
\<close>

definition path_extname :: "string \<Rightarrow> string" where
  "path_extname p =
     (let base = lastComponent p;
          afterDot = takeWhile (\<lambda>c. c \<noteq> CHR ''.'') (rev base);
          beforeDot = drop (Suc (length afterDot)) (rev base)
      in if CHR ''.'' \<notin> set base \<or> beforeDot = [] \<or> base = ''..'' then []
         else CHR ''.'' # rev afterDot)"

text \<open>
  \<open>path.basename(p, suffix)\<close>: the last component, without \<open>suffix\<close> when it ends
  with it and is longer.  The server only passes \<open>path.extname(p)\<close> as suffix.
\<close>

definition path_basename :: "string \<Rightarrow> string \<Rightarrow> string" where
  "path_basename p suffix =
     (let base = lastComponent p
      in if suffix \<noteq> [] \<and> suffix = p then []
         else if suffix \<noteq> [] \<and> length suffix < length base
                 \<and> drop (length base - length suffix) base = suffix
         then take (length base - length suffix) base
         else base)"

section \<open>PathGuard\<close>

text \<open>
  Lines 104 to 190: the two directories, the allowed directories and extensions,
  \<open>validateAndSanitizePath\<close> and \<open>createSafeOutputPath\<close>.  Null is \<open>None\<close>.  Neither
  function can reach its catch block on a string, so the model has no branch for it.
\<close>

definition uploadsDir :: "string \<Rightarrow> string" where
  "uploadsDir cwd = path_join cwd ''uploads''"

definition resultDir :: "string \<Rightarrow> string" where
  "resultDir cwd = path_join cwd ''results''"

definition ALLOWED_DIRECTORIES :: "string \<Rightarrow> string list" where
  "ALLOWED_DIRECTORIES cwd = [path_resolve cwd (uploadsDir cwd), path_resolve cwd (resultDir cwd)]"

definition ALLOWED_EXTENSIONS :: "string list" where
  "ALLOWED_EXTENSIONS = [''.mp3'', ''.wav'', ''.flac'', ''.aiff'']"

definition isInAllowedDirectory :: "string \<Rightarrow> string \<Rightarrow> bool" where
  "isInAllowedDirectory cwd resolvedPath =
     list_ex (\<lambda>allowedDir. startsWith resolvedPath (allowedDir @ ''/'') \<or> resolvedPath = allowedDir)
       (ALLOWED_DIRECTORIES cwd)"

definition validateAndSanitizePath :: "string \<Rightarrow> string \<Rightarrow> string option" where
  "validateAndSanitizePath cwd filePath =
     (let resolvedPath = path_resolve cwd filePath
      in if \<not> isInAllowedDirectory cwd resolvedPath then None
         else if toLowerCase (path_extname resolvedPath) \<notin> set ALLOWED_EXTENSIONS then None
         else if str_includes resolvedPath ''..'' \<or> str_includes resolvedPath ''~'' then None
         else Some resolvedPath)"

definition sanitizeChar :: "char \<Rightarrow> char" where
  "sanitizeChar c =
     (if c \<in> {CHR ''/'', CHR 0x5C, CHR '':'', CHR ''*'', CHR ''?'', CHR 0x22, CHR ''<'', CHR ''>'', CHR ''|''}
      then CHR ''_'' else c)"

definition createSafeOutputPath :: "string \<Rightarrow> string \<Rightarrow> string \<Rightarrow> string option" where
  "createSafeOutputPath cwd baseDir filename =
     (let sanitizedFilename = map sanitizeChar filename;
          resolvedBaseDir = path_resolve cwd baseDir;
          isAllowedBaseDir = list_ex (\<lambda>allowedDir. startsWith resolvedBaseDir allowedDir)
                               (ALLOWED_DIRECTORIES cwd)
      in if \<not> isAllowedBaseDir then None
         else validateAndSanitizePath cwd (path_join resolvedBaseDir sanitizedFilename))"

section \<open>Numbers\<close>

text \<open>
  A JavaScript number is a double.  The numbers of the routes come out of \<open>parseInt\<close>
  and out of sums and differences of integers, so each is NaN, an integer that a
  double holds, or an infinity; the zero of negative sign behaves as zero wherever the
  server uses a number, and is zero here.
\<close>

datatype number = NaN | Finite int | Infinity | NegInfinity

text \<open>
  The double nearest to a non-negative integer \<open>m\<close>.  Up to \<open>2 ^ 53\<close> every integer is
  a double.  Beyond, a double keeps the 53 leading bits: \<open>exponentOf m\<close> is the number
  of bits dropped, and the bits kept are rounded to the nearest, to the even one on a
  tie.  A result of \<open>2 ^ 1024\<close> or more is no finite double: the number is an infinity.
\<close>

function exponentOf :: "int \<Rightarrow> nat" where
  "exponentOf m = (if m < 2 ^ 53 then 0 else Suc (exponentOf (m div 2)))"
  by pat_completeness auto
termination
  by (relation "measure nat") auto

declare exponentOf.simps [simp del]

definition roundToDouble :: "int \<Rightarrow> int" where
  "roundToDouble m =
     (if m \<le> 2 ^ 53 then m
      else
        (let e = exponentOf m; q = m div 2 ^ e; r = m mod 2 ^ e; half = 2 ^ (e - 1)
         in (if half < r \<or> (r = half \<and> odd q) then q + 1 else q) * 2 ^ e))"

text \<open>The number of sign \<open>sign\<close> (1 or -1) and magnitude \<open>m\<close>.\<close>

definition toNumber :: "int \<Rightarrow> int \<Rightarrow> number" where
  "toNumber sign m =
     (if m \<le> 2 ^ 53 then Finite (sign * m)
      else if 2 ^ 1024 \<le> roundToDouble m then (if sign < 0 then NegInfinity else Infinity)
      else Finite (sign * roundToDouble m))"

definition fromInt :: "int \<Rightarrow> number" where
  "fromInt i = toNumber (if i < 0 then -1 else 1) \<bar>i\<bar>"

text \<open>\<open>x - y\<close> and \<open>x + 1\<close> on these numbers: the exact result, rounded.\<close>

fun subtract :: "number \<Rightarrow> number \<Rightarrow> number" where
  "subtract (Finite a) (Finite b) = fromInt (a - b)"
| "subtract NaN _ = NaN"
| "subtract _ NaN = NaN"
| "subtract Infinity Infinity = NaN"
| "subtract NegInfinity NegInfinity = NaN"
| "subtract Infinity _ = Infinity"
| "subtract NegInfinity _ = NegInfinity"
| "subtract (Finite a) Infinity = NegInfinity"
| "subtract (Finite a) NegInfinity = Infinity"

fun plusOne :: "number \<Rightarrow> number" where
  "plusOne (Finite a) = fromInt (a + 1)"
| "plusOne v = v"

text \<open>
  White space is the white space among the characters below 256.
\<close>

definition isDigit :: "char \<Rightarrow> bool" where
  "isDigit c = (48 \<le> (of_char c :: nat) \<and> (of_char c :: nat) \<le> 57)"

definition isWhiteSpace :: "char \<Rightarrow> bool" where
  "isWhiteSpace c = ((of_char c :: nat) \<in> {9, 10, 11, 12, 13, 32, 160})"

definition digitsValue :: "string \<Rightarrow> nat" where
  "digitsValue ds = foldl (\<lambda>acc c. 10 * acc + ((of_char c :: nat) - 48)) 0 ds"

definition hexDigitValue :: "char \<Rightarrow> nat option" where
  "hexDigitValue c =
     (let n = of_char c :: nat
      in if 48 \<le> n \<and> n \<le> 57 then Some (n - 48)
         else if 65 \<le> n \<and> n \<le> 70 then Some (n - 55)
         else if 97 \<le> n \<and> n \<le> 102 then Some (n - 87)
         else None)"

definition hexValue :: "string \<Rightarrow> nat" where
  "hexValue ds = foldl (\<lambda>acc c. 16 * acc + (case hexDigitValue c of None \<Rightarrow> 0 | Some d \<Rightarrow> d)) 0 ds"

definition signOf :: "string \<Rightarrow> int \<times> string" where
  "signOf s =
     (case s of [] \<Rightarrow> (1, [])
      | c # cs \<Rightarrow> if c = CHR ''-'' then (-1, cs) else if c = CHR ''+'' then (1, cs) else (1, c # cs))"

text \<open>
  \<open>parseInt(s, 10)\<close>: white space, a sign, then the longest run of decimal digits; the
  result is the double nearest to the integer the digits write (the engine of Node
  rounds the exact value), NaN when there is no digit.
\<close>

definition parseInt10 :: "string \<Rightarrow> number" where
  "parseInt10 s =
     (let (sign, rest) = signOf (dropWhile isWhiteSpace s);
          ds = takeWhile isDigit rest
      in if ds = [] then NaN else toNumber sign (int (digitsValue ds)))"

text \<open>
  \<open>parseInt(s)\<close> with no radix reads hexadecimal digits after a \<open>0x\<close> or \<open>0X\<close> prefix and
  decimal digits otherwise; of an absent query parameter it is NaN.
\<close>

definition parseInt :: "string option \<Rightarrow> number" where
  "parseInt q =
     (case q of None \<Rightarrow> NaN
      | Some s \<Rightarrow>
         (let (sign, rest) = signOf (dropWhile isWhiteSpace s)
          in if startsWith rest ''0x'' \<or> startsWith rest ''0X'' then
               (let hs = takeWhile (\<lambda>c. hexDigitValue c \<noteq> None) (drop 2 rest)
                in if hs = [] then NaN else toNumber sign (int (hexValue hs)))
             else
               (let ds = takeWhile isDigit rest
                in if ds = [] then NaN else toNumber sign (int (digitsValue ds)))))"

text \<open>
  The decimal digits of a natural number: what JavaScript prints for an integer from 0
  to \<open>2 ^ 53\<close>.  The server prints array indices, file sizes, and the bounds and the
  size of a chunk once the read stream has taken them; none is larger.
\<close>

function toString_nat :: "nat \<Rightarrow> string" where
  "toString_nat n =
     (if n < 10 then [char_of (48 + n)] else toString_nat (n div 10) @ [char_of (48 + n mod 10)])"
  by pat_completeness auto
termination
  by (relation "measure id") auto

declare toString_nat.simps [simp del]

definition toString :: "number \<Rightarrow> string" where
  "toString v =
     (case v of
        NaN \<Rightarrow> ''NaN''
      | Finite i \<Rightarrow> if i < 0 then CHR ''-'' # toString_nat (nat (- i)) else toString_nat (nat i)
      | Infinity \<Rightarrow> ''Infinity''
      | NegInfinity \<Rightarrow> ''-Infinity'')"

section \<open>Tracks and their store\<close>

record settings =
  introLength :: int
  outroLength :: int
  preserveVocals :: bool
  beatDetection :: string

text \<open>
  A row of the table of audio tracks.  A nullable column is an option; an array column
  that holds no array reads as \<open>None\<close>, an array entry that is null as \<open>None\<close>.  The
  schema of the table is not part of the sources at hand, so no default of a column is
  assumed: the theorems hold for every row.  Durations, bit rates and tempos are
  numbers that the server only stores and tests against 0; they are integers here.

  The store maps the id of a track to its row.  \<open>updateAudioTrack\<close> sets the fields of
  the object it is given on the row of that id and leaves every other field and row;
  on an id without a row it changes nothing.
\<close>

record audioTrack =
  originalFilename :: string
  originalPath :: string
  userId :: int
  format :: "string option"
  bitrate :: "int option"
  duration :: "int option"
  bpm :: "int option"
  key :: "string option"
  status :: string
  settings :: "settings option"
  extendedPaths :: "string option list option"
  extendedDurations :: "int option list option"
  versionCount :: "int option"

text \<open>One field of the object given to \<open>updateAudioTrack\<close>.\<close>

datatype assignment =
    Format "string option"
  | Bitrate "int option"
  | Duration "int option"
  | Bpm "int option"
  | Key "string option"
  | Status string
  | Settings settings
  | ExtendedPaths "string option list"
  | ExtendedDurations "int option list"
  | VersionCount int

fun assign :: "assignment \<Rightarrow> audioTrack \<Rightarrow> audioTrack" where
  "assign (Format v) t = t\<lparr>format := v\<rparr>"
| "assign (Bitrate v) t = t\<lparr>bitrate := v\<rparr>"
| "assign (Duration v) t = t\<lparr>duration := v\<rparr>"
| "assign (Bpm v) t = t\<lparr>bpm := v\<rparr>"
| "assign (Key v) t = t\<lparr>key := v\<rparr>"
| "assign (Status v) t = t\<lparr>status := v\<rparr>"
| "assign (Settings v) t = t\<lparr>settings := Some v\<rparr>"
| "assign (ExtendedPaths v) t = t\<lparr>extendedPaths := Some v\<rparr>"
| "assign (ExtendedDurations v) t = t\<lparr>extendedDurations := Some v\<rparr>"
| "assign (VersionCount v) t = t\<lparr>versionCount := Some v\<rparr>"

type_synonym storage = "int \<rightharpoonup> audioTrack"

definition getAudioTrack :: "storage \<Rightarrow> int \<Rightarrow> audioTrack option" where
  "getAudioTrack st i = st i"

definition updateAudioTrack :: "storage \<Rightarrow> int \<Rightarrow> assignment list \<Rightarrow> storage" where
  "updateAudioTrack st i upd =
     (case st i of None \<Rightarrow> st | Some t \<Rightarrow> st(i \<mapsto> fold assign upd t))"

text \<open>\<open>Array.isArray(x) ? x : []\<close>\<close>

definition arrayOrEmpty :: "'a list option \<Rightarrow> 'a list" where
  "arrayOrEmpty x = (case x of None \<Rightarrow> [] | Some xs \<Rightarrow> xs)"

text \<open>\<open>xs[i]\<close>: undefined (here \<open>None\<close>, as a null entry) outside the array.\<close>

definition at_index :: "'a option list \<Rightarrow> number \<Rightarrow> 'a option" where
  "at_index xs v =
     (case v of
        Finite i \<Rightarrow> if 0 \<le> i \<and> i < int (length xs) then xs ! nat i else None
      | _ \<Rightarrow> None)"

text \<open>\<open>x || d\<close> on a nullable integer column: null and 0 are falsy.\<close>

definition orElse :: "int option \<Rightarrow> int \<Rightarrow> int" where
  "orElse x d = (case x of None \<Rightarrow> d | Some v \<Rightarrow> if v = 0 then d else v)"

text \<open>\<open>x || 0\<close> on a number: NaN and 0 are falsy.\<close>

definition orZero :: "number \<Rightarrow> number" where
  "orZero x = (case x of NaN \<Rightarrow> Finite 0 | v \<Rightarrow> v)"

text \<open>\<open>x >= n\<close> for a number and the length of an array.\<close>

definition atLeastLength :: "number \<Rightarrow> nat \<Rightarrow> bool" where
  "atLeastLength x n =
     (case x of Finite i \<Rightarrow> int n \<le> i | Infinity \<Rightarrow> True | _ \<Rightarrow> False)"

text \<open>\<open>x > 3\<close> for a nullable number: null compares as 0.\<close>

definition greaterThan3 :: "int option \<Rightarrow> bool" where
  "greaterThan3 x = (case x of None \<Rightarrow> False | Some v \<Rightarrow> v > 3)"

section \<open>Responses and file system calls\<close>

text \<open>
  What a handler answers: \<open>res.status(n).json({message: m})\<close> is \<open>Json n m\<close>,
  \<open>res.writeHead(n, head)\<close> followed by the piped stream is \<open>WriteHead n head\<close>, and
  \<open>res.download(path, name)\<close> is \<open>Download path name\<close>.  The store and the file system
  are total here: a failing query or a file that vanishes between two calls, which the
  handlers answer with 500 from their catch blocks, are outside the model.  One query
  always fails: the ids of the rows are integers, so the query for an id that parsed
  to an infinity is refused by the database and the handler answers from its catch
  block.
\<close>

datatype response =
    Json nat string
  | WriteHead nat "(string \<times> string) list"
  | Download string string

text \<open>
  The calls a handler makes on the file system, in order.  \<open>CreateReadStream\<close> carries
  the \<open>start\<close> and \<open>end\<close> options when the handler gives them.
\<close>

datatype fs_call =
    ExistsSync string
  | StatSync string
  | CreateReadStream string "(number \<times> number) option"
  | ResDownload string

text \<open>The files on disk: the size of each path that exists.\<close>

type_synonym files = "string \<rightharpoonup> nat"

text \<open>
  \<open>fs.createReadStream(path, {start, end})\<close> is a call into Node (the README asks for
  version 20 or later).  The constructor of the read stream checks its options before
  it opens anything.  \<open>start\<close> must be an integer from 0 to \<open>Number.MAX_SAFE_INTEGER\<close>.
  An \<open>end\<close> that is \<open>Infinity\<close> is taken as it is; any other \<open>end\<close> must be such an
  integer too, and \<open>start\<close> must not exceed it.  Otherwise the constructor throws a
  RangeError (\<open>ERR_OUT_OF_RANGE\<close>) in the caller.  NaN and the infinities are no
  integers.
\<close>

definition MAX_SAFE_INTEGER :: int where
  "MAX_SAFE_INTEGER = 2 ^ 53 - 1"

definition validateInteger :: "number \<Rightarrow> bool" where
  "validateInteger v = (case v of Finite i \<Rightarrow> 0 \<le> i \<and> i \<le> MAX_SAFE_INTEGER | _ \<Rightarrow> False)"

definition exceeds :: "number \<Rightarrow> number \<Rightarrow> bool" where
  "exceeds start end' = (case (start, end') of (Finite a, Finite b) \<Rightarrow> b < a | _ \<Rightarrow> False)"

definition createReadStream_accepts :: "number \<Rightarrow> number \<Rightarrow> bool" where
  "createReadStream_accepts start end' =
     (validateInteger start \<and>
      (end' = Infinity \<or> (validateInteger end' \<and> \<not> exceeds start end')))"

section \<open>Streaming: GET /api/audio/:id/:type\<close>

text \<open>
  Lines 574 to 653.  The handler is given the id and type of the route, the \<open>version\<close>
  query parameter and the Range header (each of the last two absent or a string), and
  returns its answer with the calls it made on the file system.
\<close>

text \<open>\<open>s.replace(/bytes=/, "")\<close> removes the first occurrence only.\<close>

fun removeFirst :: "string \<Rightarrow> string \<Rightarrow> string" where
  "removeFirst pat [] = []"
| "removeFirst pat (c # cs) =
     (if startsWith (c # cs) pat then drop (length pat) (c # cs) else c # removeFirst pat cs)"

definition rangeParts :: "string \<Rightarrow> string list" where
  "rangeParts rangeHeader = str_split CHR ''-'' (removeFirst ''bytes='' rangeHeader)"

definition rangeStart :: "string \<Rightarrow> number" where
  "rangeStart rangeHeader = parseInt10 (hd (rangeParts rangeHeader))"

definition rangeEnd :: "string \<Rightarrow> nat \<Rightarrow> number" where
  "rangeEnd rangeHeader fileSize =
     (case rangeParts rangeHeader of
        _ # p1 # _ \<Rightarrow> if p1 \<noteq> [] then parseInt10 p1 else subtract (Finite (int fileSize)) (Finite 1)
      | _ \<Rightarrow> subtract (Finite (int fileSize)) (Finite 1))"

definition chunksize :: "number \<Rightarrow> number \<Rightarrow> number" where
  "chunksize start end' = plusOne (subtract end' start)"

definition rangeHead :: "number \<Rightarrow> number \<Rightarrow> nat \<Rightarrow> (string \<times> string) list" where
  "rangeHead start end' fileSize =
     [(''Content-Range'', ''bytes '' @ toString start @ ''-'' @ toString end' @ ''/'' @ toString_nat fileSize),
      (''Accept-Ranges'', ''bytes''),
      (''Content-Length'', toString (chunksize start end')),
      (''Content-Type'', ''audio/mpeg'')]"

definition fullHead :: "nat \<Rightarrow> (string \<times> string) list" where
  "fullHead fileSize =
     [(''Content-Length'', toString_nat fileSize), (''Content-Type'', ''audio/mpeg'')]"

text \<open>The version index of a request: \<open>parseInt(req.query.version) || 0\<close>.\<close>

definition versionIndex :: "string option \<Rightarrow> number" where
  "versionIndex q = orZero (parseInt q)"

text \<open>The path the streaming route takes from the track, before any check of it.\<close>

definition audioFilePath :: "audioTrack \<Rightarrow> string \<Rightarrow> string option \<Rightarrow> string option" where
  "audioFilePath track type' versionQuery =
     (if type' = ''extended''
      then at_index (arrayOrEmpty (extendedPaths track)) (versionIndex versionQuery)
      else Some (originalPath track))"

text \<open>
  What the handler does once the file is known to exist (lines 620 to 645).  With a
  Range header the stream is created on line 629, inside the try block and before the
  head is written on line 636, so a stream that the constructor refuses ends in the
  handler's catch block, which answers 500.  An empty header value is falsy.
\<close>

definition streamFile :: "string \<Rightarrow> nat \<Rightarrow> string option \<Rightarrow> response \<times> fs_call list" where
  "streamFile safePath fileSize rangeHeader =
     (case rangeHeader of
        Some r \<Rightarrow>
          if r \<noteq> [] then
            (let start = rangeStart r; end' = rangeEnd r fileSize;
                 calls = [ExistsSync safePath, StatSync safePath,
                          CreateReadStream safePath (Some (start, end'))]
             in if createReadStream_accepts start end'
                then (WriteHead 206 (rangeHead start end' fileSize), calls)
                else (Json 500 ''Error streaming audio'', calls))
          else (WriteHead 200 (fullHead fileSize),
                [ExistsSync safePath, StatSync safePath, CreateReadStream safePath None])
      | None \<Rightarrow> (WriteHead 200 (fullHead fileSize),
                [ExistsSync safePath, StatSync safePath, CreateReadStream safePath None]))"

definition audioHandler ::
  "string \<Rightarrow> storage \<Rightarrow> files \<Rightarrow> string \<Rightarrow> string \<Rightarrow> string option \<Rightarrow> string option
     \<Rightarrow> response \<times> fs_call list" where
  "audioHandler cwd st fs idParam type' versionQuery rangeHeader =
     (case parseInt10 idParam of
        NaN \<Rightarrow> (Json 400 ''Invalid track ID'', [])
      | Infinity \<Rightarrow>
          if type' \<noteq> ''original'' \<and> type' \<noteq> ''extended''
          then (Json 400 ''Invalid audio type'', [])
          else (Json 500 ''Error streaming audio'', [])
      | NegInfinity \<Rightarrow>
          if type' \<noteq> ''original'' \<and> type' \<noteq> ''extended''
          then (Json 400 ''Invalid audio type'', [])
          else (Json 500 ''Error streaming audio'', [])
      | Finite i \<Rightarrow>
          if type' \<noteq> ''original'' \<and> type' \<noteq> ''extended''
          then (Json 400 ''Invalid audio type'', [])
          else
            (case getAudioTrack st i of
               None \<Rightarrow> (Json 404 ''Track not found'', [])
             | Some track \<Rightarrow>
                 (case audioFilePath track type' versionQuery of
                    None \<Rightarrow> (Json 404 (type' @ '' audio file not found''), [])
                  | Some filePath \<Rightarrow>
                      if filePath = [] then (Json 404 (type' @ '' audio file not found''), [])
                      else
                        (case validateAndSanitizePath cwd filePath of
                           None \<Rightarrow> (Json 400 ''Invalid file path - path validation failed'', [])
                         | Some safePath \<Rightarrow>
                             (case fs safePath of
                                None \<Rightarrow> (Json 404 ''Audio file not found on disk'',
                                          [ExistsSync safePath])
                              | Some fileSize \<Rightarrow> streamFile safePath fileSize rangeHeader)))))"

section \<open>Download: GET /api/tracks/:id/download\<close>

text \<open>Lines 656 to 712.\<close>

definition downloadFilename :: "audioTrack \<Rightarrow> number \<Rightarrow> string" where
  "downloadFilename track version =
     path_basename (originalFilename track) (path_extname (originalFilename track))
       @ ''_extended_v'' @ toString (plusOne version) @ path_extname (originalFilename track)"

definition downloadHandler ::
  "string \<Rightarrow> storage \<Rightarrow> files \<Rightarrow> string \<Rightarrow> string option \<Rightarrow> response \<times> fs_call list" where
  "downloadHandler cwd st fs idParam versionQuery =
     (case parseInt10 idParam of
        NaN \<Rightarrow> (Json 400 ''Invalid track ID'', [])
      | Infinity \<Rightarrow> (Json 500 ''Error downloading file'', [])
      | NegInfinity \<Rightarrow> (Json 500 ''Error downloading file'', [])
      | Finite i \<Rightarrow>
          (case getAudioTrack st i of
             None \<Rightarrow> (Json 404 ''Track not found'', [])
           | Some track \<Rightarrow>
               (let version = versionIndex versionQuery;
                    paths = arrayOrEmpty (extendedPaths track)
                in if atLeastLength version (length paths) then (Json 404 ''Extended version not found'', [])
                   else
                     (case at_index paths version of
                        None \<Rightarrow> (Json 404 ''Extended version not found'', [])
                      | Some filePath \<Rightarrow>
                          if filePath = [] then (Json 404 ''Extended version not found'', [])
                          else
                            (case validateAndSanitizePath cwd filePath of
                               None \<Rightarrow> (Json 400 ''Invalid file path - path validation failed'', [])
                             | Some safePath \<Rightarrow>
                                 (case fs safePath of
                                    None \<Rightarrow> (Json 404 ''Extended audio file not found on disk'',
                                              [ExistsSync safePath])
                                  | Some _ \<Rightarrow>
                                      (Download safePath (downloadFilename track version),
                                       [ExistsSync safePath, ResDownload safePath])))))))"

section \<open>Processing: POST /api/tracks/:id/process\<close>

text \<open>Lines 410 to 483: the handler up to its answer.\<close>

text \<open>What is handed to the external audio tool: the arguments of one run.\<close>

record job =
  jobTrack :: int
  jobInput :: string
  jobOutput :: string
  jobSettings :: settings

text \<open>The name of the next output file, from the original name and the versions so far.\<close>

definition safeFilename :: "audioTrack \<Rightarrow> string" where
  "safeFilename track =
     (let outputBase = path_basename (originalFilename track) (path_extname (originalFilename track));
          fileExt = path_extname (originalFilename track);
          version = length (arrayOrEmpty (extendedPaths track))
      in outputBase @ ''_extended_v'' @ toString_nat (version + 1) @ fileExt)"

definition dispatchUpdate :: "audioTrack \<Rightarrow> settings \<Rightarrow> assignment list" where
  "dispatchUpdate track s =
     [Status (if length (arrayOrEmpty (extendedPaths track)) > 0 then ''regenerate'' else ''processing''),
      Settings s]"

text \<open>
  The handler answers, leaves a store behind and may start a job.  The request body is
  given as the outcome of parsing it against the settings schema: \<open>None\<close> when the
  parser throws, which the handler's catch block answers.
\<close>

definition processHandler ::
  "string \<Rightarrow> storage \<Rightarrow> string \<Rightarrow> settings option \<Rightarrow> response \<times> storage \<times> job option" where
  "processHandler cwd st idParam body =
     (case parseInt10 idParam of
        NaN \<Rightarrow> (Json 400 ''Invalid track ID'', st, None)
      | Infinity \<Rightarrow> (Json 500 ''Error processing track'', st, None)
      | NegInfinity \<Rightarrow> (Json 500 ''Error processing track'', st, None)
      | Finite i \<Rightarrow>
          (case getAudioTrack st i of
             None \<Rightarrow> (Json 404 ''Track not found'', st, None)
           | Some track \<Rightarrow>
               if greaterThan3 (versionCount track)
               then (Json 400 ''Maximum version limit (3) reached'', st, None)
               else
                 (case body of
                    None \<Rightarrow> (Json 500 ''Error processing track'', st, None)
                  | Some s \<Rightarrow>
                      (let st' = updateAudioTrack st i (dispatchUpdate track s)
                       in case createSafeOutputPath cwd (resultDir cwd) (safeFilename track) of
                            None \<Rightarrow> (Json 400 ''Invalid output path - unable to create safe file path'',
                                      st', None)
                          | Some outputPath \<Rightarrow>
                              (Json 202 ''Processing started'', st',
                               Some \<lparr>jobTrack = i, jobInput = originalPath track,
                                     jobOutput = outputPath, jobSettings = s\<rparr>)))))"

section \<open>The background job\<close>

text \<open>
  Lines 486 to 542: the promise chain of the job.  The first run of the external tool
  extends the audio and the second reads the duration of the output.  The first ends
  well or fails; the second may fail, print nothing, print what cannot be parsed, or
  print an object with a duration (absent when the object has none).  A failure of
  either run, and a track that is gone at the re-read, reach the catch handler.
\<close>

datatype tool_outcome = ToolFailed | ToolSucceeded

datatype info_outcome = InfoFailed | NoOutput | Unparsable | Parsed "int option"

definition extendedDuration :: "info_outcome \<Rightarrow> int option" where
  "extendedDuration info =
     (case info of
        Parsed (Some d) \<Rightarrow> if d = 0 then None else Some d
      | _ \<Rightarrow> None)"

text \<open>The update written after a successful run, computed from the track just re-read.\<close>

definition completedUpdate :: "audioTrack \<Rightarrow> string \<Rightarrow> int option \<Rightarrow> assignment list" where
  "completedUpdate track outputPath dur =
     [Status ''completed'',
      ExtendedPaths (arrayOrEmpty (extendedPaths track) @ [Some outputPath]),
      ExtendedDurations (arrayOrEmpty (extendedDurations track) @ [dur]),
      VersionCount (orElse (versionCount track) 1 + 1)]"

definition errorUpdate :: "assignment list" where
  "errorUpdate = [Status ''error'']"

text \<open>
  One job from start to end, with no other request in between: the store it leaves and
  the scripts it ran.
\<close>

definition runJob :: "storage \<Rightarrow> job \<Rightarrow> tool_outcome \<Rightarrow> info_outcome \<Rightarrow> storage \<times> string list" where
  "runJob st j tool info =
     (case tool of
        ToolFailed \<Rightarrow> (updateAudioTrack st (jobTrack j) errorUpdate, [''audioProcessor.py''])
      | ToolSucceeded \<Rightarrow>
          (case info of
             InfoFailed \<Rightarrow>
               (updateAudioTrack st (jobTrack j) errorUpdate, [''audioProcessor.py'', ''utils.py''])
           | _ \<Rightarrow>
               (case getAudioTrack st (jobTrack j) of
                  None \<Rightarrow>
                    (updateAudioTrack st (jobTrack j) errorUpdate,
                     [''audioProcessor.py'', ''utils.py''])
                | Some track \<Rightarrow>
                    (updateAudioTrack st (jobTrack j)
                       (completedUpdate track (jobOutput j) (extendedDuration info)),
                     [''audioProcessor.py'', ''utils.py'']))))"

text \<open>
  The end of a successful job is two calls on the store, the re-read and the write, and
  the calls of two jobs on one track may alternate.  \<open>Refetch k\<close> and \<open>Store k\<close> are the
  two calls of the job that writes the \<open>k\<close>-th pair of \<open>outs\<close>; a schedule is a list of
  them, run against the store and the tracks the jobs hold.
\<close>

datatype store_call = Refetch nat | Store nat

fun storeCall ::
  "int \<Rightarrow> (string \<times> int option) list \<Rightarrow> storage \<times> (nat \<rightharpoonup> audioTrack) \<Rightarrow> store_call
     \<Rightarrow> storage \<times> (nat \<rightharpoonup> audioTrack)" where
  "storeCall i outs (st, held) (Refetch k) =
     (case getAudioTrack st i of None \<Rightarrow> (st, held) | Some track \<Rightarrow> (st, held(k \<mapsto> track)))"
| "storeCall i outs (st, held) (Store k) =
     (case held k of
        None \<Rightarrow> (st, held)
      | Some track \<Rightarrow>
          if k < length outs
          then (updateAudioTrack st i (completedUpdate track (fst (outs ! k)) (snd (outs ! k))), held)
          else (st, held))"

definition runSchedule ::
  "int \<Rightarrow> (string \<times> int option) list \<Rightarrow> storage \<Rightarrow> store_call list \<Rightarrow> storage" where
  "runSchedule i outs st calls = fst (foldl (storeCall i outs) (st, Map.empty) calls)"

text \<open>The update written after the analysis of an upload.\<close>

definition analysisUpdate ::
  "string option \<Rightarrow> int option \<Rightarrow> int option \<Rightarrow> int option \<Rightarrow> string option \<Rightarrow> assignment list" where
  "analysisUpdate fmt br dur tempo k =
     [Format fmt, Bitrate br, Duration dur, Bpm tempo, Key k]"

text \<open>The invariant of the two arrays of versions.\<close>

definition paired :: "audioTrack \<Rightarrow> bool" where
  "paired t = (length (arrayOrEmpty (extendedPaths t)) = length (arrayOrEmpty (extendedDurations t)))"

text \<open>The path a file system call is made on.\<close>

definition fs_path :: "fs_call \<Rightarrow> string" where
  "fs_path c =
     (case c of ExistsSync p \<Rightarrow> p | StatSync p \<Rightarrow> p | CreateReadStream p _ \<Rightarrow> p | ResDownload p \<Rightarrow> p)"

section \<open>Example data\<close>

text \<open>
  A server started in \<open>/srv\<close>, the track of a fresh upload of \<open>song.mp3\<close>, the same
  track with two versions, and the settings of a request.
\<close>

definition exampleTrack :: audioTrack where
  "exampleTrack =
     \<lparr>originalFilename = ''song.mp3'', originalPath = ''/srv/uploads/1700000000000-42.mp3'',
      userId = 1, format = Some ''mpeg'', bitrate = None, duration = None, bpm = None, key = None,
      status = ''uploaded'', settings = None, extendedPaths = None, extendedDurations = None,
      versionCount = Some 0\<rparr>"

definition exampleTrack2 :: audioTrack where
  "exampleTrack2 =
     exampleTrack\<lparr>status := ''completed'',
       extendedPaths := Some [Some ''/srv/results/song_extended_v1.mp3'',
                              Some ''/srv/results/song_extended_v2.mp3''],
       extendedDurations := Some [Some 200, None],
       versionCount := Some 3\<rparr>"

definition exampleSettings :: settings where
  "exampleSettings =
     \<lparr>introLength = 10, outroLength = 5, preserveVocals = True, beatDetection = ''auto''\<rparr>"

definition exampleJob :: job where
  "exampleJob =
     \<lparr>jobTrack = 7, jobInput = ''/srv/uploads/1700000000000-42.mp3'',
      jobOutput = ''/srv/results/song_extended_v1.mp3'', jobSettings = exampleSettings\<rparr>"

definition exampleFiles :: files where
  "exampleFiles = [''/srv/uploads/1700000000000-42.mp3'' \<mapsto> 1000]"

definition tamperedTrack :: audioTrack where
  "tamperedTrack =
     exampleTrack2\<lparr>originalPath := ''/etc/passwd'',
       extendedPaths := Some [Some ''/srv/results/../secret.mp3'']\<rparr>"

text \<open>The calls of \<open>n\<close> jobs that run one after the other.\<close>

definition sequentialCalls :: "nat \<Rightarrow> store_call list" where
  "sequentialCalls n = concat (map (\<lambda>k. [Refetch k, Store k]) [0..<n])"

text \<open>Two jobs on the track of the example that were both started before either ended.\<close>

definition overlappingOuts :: "(string \<times> int option) list" where
  "overlappingOuts =
     [(''/srv/results/song_extended_v1.mp3'', Some 200), (''/srv/results/song_extended_v1.mp3'', Some 200)]"

text \<open>Two jobs on the track of the example, the second started after the first has ended.\<close>

definition exampleOuts :: "(string \<times> int option) list" where
  "exampleOuts =
     [(''/srv/results/song_extended_v1.mp3'', Some 200), (''/srv/results/song_extended_v2.mp3'', None)]"

section \<open>Facts about the store\<close>

lemma updateAudioTrack_apply:
  "updateAudioTrack st i upd k = (if k = i then map_option (fold assign upd) (st k) else st k)"
  by (simp add: updateAudioTrack_def split: option.splits)

lemma assign_Status: "assign (Status s) = (\<lambda>t. t\<lparr>status := s\<rparr>)"
  by (rule ext) simp

section \<open>Failure of the external tool\<close>

text \<open>
  Claim C7.  When the run of the audio tool fails, the job writes the status \<open>error\<close> on
  its track and nothing else: every other field of that track and every other track of
  the store stay as they were, and the tool has been run once, with no second attempt.
\<close>

theorem failed_tool_sets_error_only:
  "fst (runJob st j ToolFailed info) =
     (\<lambda>k. if k = jobTrack j then map_option (\<lambda>t. t\<lparr>status := ''error''\<rparr>) (st k) else st k)
   \<and> snd (runJob st j ToolFailed info) = [''audioProcessor.py'']"
  by (auto simp add: runJob_def errorUpdate_def updateAudioTrack_apply assign_Status fun_eq_iff)

theorem failed_tool_sets_error_only_witness:
  "fst (runJob [7 \<mapsto> exampleTrack] exampleJob ToolFailed NoOutput) 7
     = Some (exampleTrack\<lparr>status := ''error''\<rparr>)
   \<and> snd (runJob [7 \<mapsto> exampleTrack] exampleJob ToolFailed NoOutput) = [''audioProcessor.py'']"
  using failed_tool_sets_error_only [of "[7 \<mapsto> exampleTrack]" exampleJob NoOutput]
  by (simp add: exampleJob_def)

section \<open>The version limit\<close>

text \<open>
  Claim C3.  For a request on a track of the store, the answer is the 400 of the
  version limit exactly when the version count of the track is greater than 3, and then
  the store is left as it was and no job starts; so a count of 4 is refused, while a
  count of 3 passes the check: with settings that parse and an output path that the
  path guard accepts, the request is answered 202 and its job starts.
\<close>

theorem version_limit:
  assumes "parseInt10 idParam = Finite i" and "getAudioTrack st i = Some track"
  shows "(fst (processHandler cwd st idParam body) = Json 400 ''Maximum version limit (3) reached''
            \<longleftrightarrow> (\<exists>v. versionCount track = Some v \<and> 3 < v))
       \<and> ((\<exists>v. versionCount track = Some v \<and> 3 < v) \<longrightarrow>
            processHandler cwd st idParam body = (Json 400 ''Maximum version limit (3) reached'', st, None))
       \<and> (versionCount track = Some 4 \<longrightarrow>
            processHandler cwd st idParam body = (Json 400 ''Maximum version limit (3) reached'', st, None))
       \<and> (versionCount track = Some 3 \<longrightarrow> body = Some s \<longrightarrow>
            createSafeOutputPath cwd (resultDir cwd) (safeFilename track) = Some outputPath \<longrightarrow>
            processHandler cwd st idParam body =
              (Json 202 ''Processing started'', updateAudioTrack st i (dispatchUpdate track s),
               Some \<lparr>jobTrack = i, jobInput = originalPath track, jobOutput = outputPath, jobSettings = s\<rparr>))"
  using assms
  by (auto simp add: processHandler_def greaterThan3_def Let_def split: option.splits)

theorem version_limit_witness:
  "processHandler ''/srv'' [7 \<mapsto> exampleTrack2\<lparr>versionCount := Some 4\<rparr>] ''7'' (Some exampleSettings)
     = (Json 400 ''Maximum version limit (3) reached'', [7 \<mapsto> exampleTrack2\<lparr>versionCount := Some 4\<rparr>], None)
   \<and> processHandler ''/srv'' [7 \<mapsto> exampleTrack2] ''7'' (Some exampleSettings)
     = (Json 202 ''Processing started'',
        updateAudioTrack [7 \<mapsto> exampleTrack2] 7 (dispatchUpdate exampleTrack2 exampleSettings),
        Some \<lparr>jobTrack = 7, jobInput = originalPath exampleTrack2,
              jobOutput = ''/srv/results/song_extended_v3.mp3'', jobSettings = exampleSettings\<rparr>)"
proof -
  have id: "parseInt10 ''7'' = Finite 7"
    by code_simp
  have four: "versionCount (exampleTrack2\<lparr>versionCount := Some 4\<rparr>) = Some 4"
    by simp
  have three: "versionCount exampleTrack2 = Some 3"
    by (simp add: exampleTrack2_def)
  have out: "createSafeOutputPath ''/srv'' (resultDir ''/srv'') (safeFilename exampleTrack2)
               = Some ''/srv/results/song_extended_v3.mp3''"
    by code_simp
  show ?thesis
    using version_limit [OF id, of "[7 \<mapsto> exampleTrack2\<lparr>versionCount := Some 4\<rparr>]"
            "exampleTrack2\<lparr>versionCount := Some 4\<rparr>" "''/srv''" "Some exampleSettings"]
          version_limit [OF id, of "[7 \<mapsto> exampleTrack2]" exampleTrack2 "''/srv''"
            "Some exampleSettings" exampleSettings "''/srv/results/song_extended_v3.mp3''"]
          four three out
    by (simp add: getAudioTrack_def)
qed

section \<open>The path guard in the delivery routes\<close>

lemma streamFile_calls:
  "c \<in> set (snd (streamFile safePath fileSize rangeHeader)) \<Longrightarrow> fs_path c = safePath"
  by (auto simp add: streamFile_def fs_path_def Let_def split: option.splits if_splits)

lemma audioHandler_calls:
  assumes "c \<in> set (snd (audioHandler cwd st fs idParam type' versionQuery rangeHeader))"
  shows "\<exists>i track filePath. parseInt10 idParam = Finite i \<and> getAudioTrack st i = Some track
           \<and> audioFilePath track type' versionQuery = Some filePath
           \<and> validateAndSanitizePath cwd filePath = Some (fs_path c)"
  using assms
  by (auto simp add: audioHandler_def fs_path_def dest: streamFile_calls
        split: option.splits number.splits if_splits)

lemma downloadHandler_calls:
  assumes "c \<in> set (snd (downloadHandler cwd st fs idParam versionQuery))"
  shows "\<exists>i track filePath. parseInt10 idParam = Finite i \<and> getAudioTrack st i = Some track
           \<and> at_index (arrayOrEmpty (extendedPaths track)) (versionIndex versionQuery) = Some filePath
           \<and> validateAndSanitizePath cwd filePath = Some (fs_path c)"
  using assms
  by (auto simp add: downloadHandler_def fs_path_def Let_def split: option.splits number.splits if_splits)

lemma audioHandler_rejected:
  assumes "parseInt10 idParam = Finite i" and "getAudioTrack st i = Some track"
    and "type' = ''original'' \<or> type' = ''extended''"
    and "audioFilePath track type' versionQuery = Some filePath" and "filePath \<noteq> []"
    and "validateAndSanitizePath cwd filePath = None"
  shows "audioHandler cwd st fs idParam type' versionQuery rangeHeader =
           (Json 400 ''Invalid file path - path validation failed'', [])"
  using assms by (auto simp add: audioHandler_def)

lemma downloadHandler_rejected:
  assumes "parseInt10 idParam = Finite i" and "getAudioTrack st i = Some track"
    and "at_index (arrayOrEmpty (extendedPaths track)) (versionIndex versionQuery) = Some filePath"
    and "filePath \<noteq> []"
    and "validateAndSanitizePath cwd filePath = None"
  shows "downloadHandler cwd st fs idParam versionQuery =
           (Json 400 ''Invalid file path - path validation failed'', [])"
  using assms
  by (auto simp add: downloadHandler_def Let_def at_index_def atLeastLength_def
        split: number.splits if_splits)

text \<open>
  Claim C2.  In the streaming route and in the download route, every call on the file
  system (existence check, stat, read stream, download) is made on the path that
  \<open>validateAndSanitizePath\<close> returned for the path taken from the track record
  (\<open>originalPath\<close> or an entry of \<open>extendedPaths\<close>); and when the guard rejects that
  path the handler answers 400 and makes no call on the file system at all.
\<close>

theorem path_guard_before_file_access:
  "(\<forall>c \<in> set (snd (audioHandler cwd st fs idParam type' versionQuery rangeHeader)).
      \<exists>i track filePath. parseInt10 idParam = Finite i \<and> getAudioTrack st i = Some track
        \<and> audioFilePath track type' versionQuery = Some filePath
        \<and> validateAndSanitizePath cwd filePath = Some (fs_path c))
   \<and> (\<forall>c \<in> set (snd (downloadHandler cwd st fs idParam versionQuery)).
      \<exists>i track filePath. parseInt10 idParam = Finite i \<and> getAudioTrack st i = Some track
        \<and> at_index (arrayOrEmpty (extendedPaths track)) (versionIndex versionQuery) = Some filePath
        \<and> validateAndSanitizePath cwd filePath = Some (fs_path c))
   \<and> (parseInt10 idParam = Finite i \<longrightarrow> getAudioTrack st i = Some track \<longrightarrow>
        (type' = ''original'' \<or> type' = ''extended'') \<longrightarrow>
        audioFilePath track type' versionQuery = Some filePath \<longrightarrow> filePath \<noteq> [] \<longrightarrow>
        validateAndSanitizePath cwd filePath = None \<longrightarrow>
        audioHandler cwd st fs idParam type' versionQuery rangeHeader =
          (Json 400 ''Invalid file path - path validation failed'', []))
   \<and> (parseInt10 idParam = Finite i \<longrightarrow> getAudioTrack st i = Some track \<longrightarrow>
        at_index (arrayOrEmpty (extendedPaths track)) (versionIndex versionQuery) = Some filePath' \<longrightarrow>
        filePath' \<noteq> [] \<longrightarrow> validateAndSanitizePath cwd filePath' = None \<longrightarrow>
        downloadHandler cwd st fs idParam versionQuery =
          (Json 400 ''Invalid file path - path validation failed'', []))"
  using audioHandler_calls [of _ cwd st fs idParam type' versionQuery rangeHeader]
    downloadHandler_calls [of _ cwd st fs idParam versionQuery]
    audioHandler_rejected [of idParam i st track type' versionQuery filePath cwd fs rangeHeader]
    downloadHandler_rejected [of idParam i st track versionQuery filePath' cwd fs]
  by blast

theorem path_guard_before_file_access_witness:
  "(\<exists>i track filePath. parseInt10 ''7'' = Finite i \<and> getAudioTrack [7 \<mapsto> exampleTrack] i = Some track
        \<and> audioFilePath track ''original'' None = Some filePath
        \<and> validateAndSanitizePath ''/srv'' filePath
             = Some (fs_path (StatSync ''/srv/uploads/1700000000000-42.mp3'')))
   \<and> audioHandler ''/srv'' [7 \<mapsto> tamperedTrack] exampleFiles ''7'' ''original'' None None
        = (Json 400 ''Invalid file path - path validation failed'', [])
   \<and> downloadHandler ''/srv'' [7 \<mapsto> tamperedTrack] exampleFiles ''7'' None
        = (Json 400 ''Invalid file path - path validation failed'', [])"
proof -
  have id: "parseInt10 ''7'' = Finite 7"
    by code_simp
  have calls: "snd (audioHandler ''/srv'' [7 \<mapsto> exampleTrack] exampleFiles ''7'' ''original'' None None)
                 = [ExistsSync ''/srv/uploads/1700000000000-42.mp3'',
                    StatSync ''/srv/uploads/1700000000000-42.mp3'',
                    CreateReadStream ''/srv/uploads/1700000000000-42.mp3'' None]"
    by code_simp
  have orig: "audioFilePath tamperedTrack ''original'' None = Some ''/etc/passwd''"
    by code_simp
  have ext: "at_index (arrayOrEmpty (extendedPaths tamperedTrack)) (versionIndex None)
               = Some ''/srv/results/../secret.mp3''"
    by code_simp
  have bad1: "validateAndSanitizePath ''/srv'' ''/etc/passwd'' = None"
    by code_simp
  have bad2: "validateAndSanitizePath ''/srv'' ''/srv/results/../secret.mp3'' = None"
    by code_simp
  note thm1 = path_guard_before_file_access [of "''/srv''" "[7 \<mapsto> exampleTrack]" exampleFiles "''7''"
      "''original''" None None]
  note thm2 = path_guard_before_file_access [of "''/srv''" "[7 \<mapsto> tamperedTrack]" exampleFiles "''7''"
      "''original''" None None 7 tamperedTrack "''/etc/passwd''" "''/srv/results/../secret.mp3''"]
  from thm1 calls have first: "\<exists>i track filePath. parseInt10 ''7'' = Finite i \<and> getAudioTrack [7 \<mapsto> exampleTrack] i = Some track
        \<and> audioFilePath track ''original'' None = Some filePath
        \<and> validateAndSanitizePath ''/srv'' filePath
             = Some (fs_path (StatSync ''/srv/uploads/1700000000000-42.mp3''))"
    by simp
  from thm2 id orig ext bad1 bad2 have rest: "audioHandler ''/srv'' [7 \<mapsto> tamperedTrack] exampleFiles ''7'' ''original'' None None
        = (Json 400 ''Invalid file path - path validation failed'', [])
   \<and> downloadHandler ''/srv'' [7 \<mapsto> tamperedTrack] exampleFiles ''7'' None
        = (Json 400 ''Invalid file path - path validation failed'', [])"
    by (simp add: getAudioTrack_def)
  from first rest show ?thesis by blast
qed

section \<open>Unknown versions\<close>

text \<open>
  Claim C8.  For a track of the store and a version selector that lies outside
  \<open>extendedPaths\<close> (negative, at or beyond its length, or an infinity) or that selects a
  null entry, the streaming route for the extended type and the download route both
  answer 404, with no call on the file system; a selector that is absent is index 0.
\<close>

theorem unknown_version_not_found:
  assumes "parseInt10 idParam = Finite i" and "getAudioTrack st i = Some track"
    and "paths = arrayOrEmpty (extendedPaths track)"
    and "\<forall>n. versionIndex versionQuery = Finite n \<longrightarrow>
           n < 0 \<or> int (length paths) \<le> n \<or> paths ! nat n = None"
  shows "audioHandler cwd st fs idParam ''extended'' versionQuery rangeHeader =
           (Json 404 ''extended audio file not found'', [])
       \<and> downloadHandler cwd st fs idParam versionQuery = (Json 404 ''Extended version not found'', [])
       \<and> versionIndex None = Finite 0
       \<and> audioFilePath track ''extended'' None = at_index paths (Finite 0)"
proof -
  have outside: "at_index paths (versionIndex versionQuery) = None"
    using assms(4) by (cases "versionIndex versionQuery") (auto simp add: at_index_def)
  have "audioHandler cwd st fs idParam ''extended'' versionQuery rangeHeader =
           (Json 404 ''extended audio file not found'', [])"
    using assms(1-3) outside by (simp add: audioHandler_def audioFilePath_def)
  moreover have "downloadHandler cwd st fs idParam versionQuery = (Json 404 ''Extended version not found'', [])"
    using assms(1-3) outside by (simp add: downloadHandler_def Let_def)
  moreover have "versionIndex None = Finite 0"
    by (simp add: versionIndex_def parseInt_def orZero_def)
  moreover have "audioFilePath track ''extended'' None = at_index paths (Finite 0)"
    using assms(3) by (simp add: audioFilePath_def versionIndex_def parseInt_def orZero_def)
  ultimately show ?thesis by simp
qed

theorem unknown_version_not_found_witness:
  "audioHandler ''/srv'' [7 \<mapsto> exampleTrack2] exampleFiles ''7'' ''extended'' (Some ''5'') None =
           (Json 404 ''extended audio file not found'', [])
       \<and> downloadHandler ''/srv'' [7 \<mapsto> exampleTrack2] exampleFiles ''7'' (Some ''5'')
            = (Json 404 ''Extended version not found'', [])"
proof -
  have id: "parseInt10 ''7'' = Finite 7"
    by code_simp
  have track: "getAudioTrack [7 \<mapsto> exampleTrack2] 7 = Some exampleTrack2"
    by (simp add: getAudioTrack_def)
  have n: "versionIndex (Some ''5'') = Finite 5"
    by code_simp
  have paths: "[Some ''/srv/results/song_extended_v1.mp3'', Some ''/srv/results/song_extended_v2.mp3'']
                 = arrayOrEmpty (extendedPaths exampleTrack2)"
    by code_simp
  have outside: "\<forall>n. versionIndex (Some ''5'') = Finite n \<longrightarrow>
      n < 0 \<or> int (length [Some ''/srv/results/song_extended_v1.mp3'', Some ''/srv/results/song_extended_v2.mp3'']) \<le> n
      \<or> [Some ''/srv/results/song_extended_v1.mp3'', Some ''/srv/results/song_extended_v2.mp3''] ! nat n = None"
    by (simp add: n)
  show ?thesis
    using unknown_version_not_found [OF id track paths outside, of "''/srv''" exampleFiles None]
    by simp
qed

section \<open>Facts about strings and paths\<close>

lemma str_includes_char: "str_includes s [c] \<longleftrightarrow> c \<in> set s"
  by (induction s) (auto simp add: startsWith_def)

lemma startsWith_includes: "startsWith s sub \<Longrightarrow> str_includes s sub"
  by (cases s) (auto simp add: startsWith_def)

lemma str_includes_append: "str_includes (pre @ sub @ post) sub"
proof (induction pre)
  case Nil
  have "startsWith (sub @ post) sub" by (simp add: startsWith_def)
  then show ?case by (simp add: startsWith_includes)
next
  case (Cons c pre)
  then show ?case by simp
qed

lemma str_split_nonempty: "str_split sep s \<noteq> []"
  by (induction s) (auto split: list.splits)

lemma str_split_append: "str_split sep (a @ sep # b) = str_split sep a @ str_split sep b"
  using str_split_nonempty [of sep]
  by (induction a) (auto split: list.splits)

lemma str_split_infix:
  "seg \<in> set (str_split sep s) \<Longrightarrow> \<exists>pre post. s = pre @ seg @ post"
proof (induction s arbitrary: seg)
  case Nil
  then show ?case by simp
next
  case (Cons c s)
  show ?case
  proof (cases "c = sep")
    case True
    with Cons.prems have "seg = [] \<or> seg \<in> set (str_split sep s)" by simp
    then show ?thesis
    proof
      assume "seg = []"
      then have "c # s = [] @ seg @ (c # s)" by simp
      then show ?thesis by blast
    next
      assume "seg \<in> set (str_split sep s)"
      from Cons.IH [OF this] obtain pre post where "s = pre @ seg @ post" by blast
      then have "c # s = (c # pre) @ seg @ post" by simp
      then show ?thesis by blast
    qed
  next
    case False
    obtain hd' tl' where sp: "str_split sep s = hd' # tl'"
      using str_split_nonempty [of sep s] by (cases "str_split sep s") auto
    with False Cons.prems have "seg = c # hd' \<or> seg \<in> set tl'" by simp
    then show ?thesis
    proof
      assume seg: "seg = c # hd'"
      from sp have "hd' \<in> set (str_split sep s)" by simp
      from Cons.IH [OF this] obtain pre post where s: "s = pre @ hd' @ post" by blast
      have first: "\<exists>post'. s = hd' @ post'"
        using sp
      proof (induction s arbitrary: hd' tl')
        case Nil
        then show ?case by simp
      next
        case (Cons d s)
        then show ?case
          by (cases "str_split sep s") (auto split: if_splits)
      qed
      then obtain post' where "s = hd' @ post'" by blast
      with seg have "c # s = [] @ seg @ post'" by simp
      then show ?thesis by blast
    next
      assume "seg \<in> set tl'"
      with sp have "seg \<in> set (str_split sep s)" by simp
      from Cons.IH [OF this] obtain pre post where "s = pre @ seg @ post" by blast
      then have "c # s = (c # pre) @ seg @ post" by simp
      then show ?thesis by blast
    qed
  qed
qed

lemma str_split_member:
  "c \<in> set s \<Longrightarrow> c \<noteq> sep \<Longrightarrow> \<exists>seg \<in> set (str_split sep s). c \<in> set seg"
proof (induction s)
  case Nil
  then show ?case by simp
next
  case (Cons d s)
  obtain hd' tl' where sp: "str_split sep s = hd' # tl'"
    using str_split_nonempty [of sep s] by (cases "str_split sep s") auto
  show ?case
  proof (cases "c \<in> set s")
    case True
    with Cons obtain seg where "seg \<in> set (str_split sep s)" "c \<in> set seg" by blast
    with sp show ?thesis by (cases "d = sep") auto
  next
    case False
    with Cons.prems have "c = d" by simp
    with Cons.prems sp show ?thesis by auto
  qed
qed

lemma str_join_member:
  "seg \<in> set segs \<Longrightarrow> c \<in> set seg \<Longrightarrow> c \<in> set (str_join sep segs)"
  by (induction sep segs rule: str_join.induct) auto

lemma normalize_no_parent:
  "\<forall>seg \<in> set segs. seg \<noteq> ''..'' \<Longrightarrow>
   foldl (normalizeStep allow) res segs = res @ filter (\<lambda>s. s \<noteq> [] \<and> s \<noteq> ''.'') segs"
  by (induction segs arbitrary: res) (auto simp add: normalizeStep_def)

lemma normalizeString_keeps:
  assumes "\<not> str_includes p ''..''" and "c \<in> set p" and "c \<noteq> CHR ''/''" and "c \<noteq> CHR ''.''"
  shows "c \<in> set (normalizeString (p @ ''/'') allow)"
    and "c \<in> set (normalizeString (cwd @ ''/'' @ p @ ''/'') allow)"
proof -
  let ?keep = "\<lambda>s. s \<noteq> [] \<and> s \<noteq> ''.''"
  have no_parent: "\<forall>seg \<in> set (str_split CHR ''/'' p @ [[]]). seg \<noteq> ''..''"
  proof
    fix seg assume "seg \<in> set (str_split CHR ''/'' p @ [[]])"
    then have "seg = [] \<or> seg \<in> set (str_split CHR ''/'' p)" by auto
    then show "seg \<noteq> ''..''"
    proof
      assume "seg = []" then show ?thesis by simp
    next
      assume "seg \<in> set (str_split CHR ''/'' p)"
      then obtain a b where "p = a @ seg @ b" using str_split_infix by blast
      with assms(1) str_includes_append [of a seg b] show ?thesis by auto
    qed
  qed
  obtain seg where seg: "seg \<in> set (str_split CHR ''/'' p)" "c \<in> set seg"
    using str_split_member [OF assms(2,3)] by blast
  have keep: "?keep seg"
  proof
    from seg(2) show "seg \<noteq> []" by auto
    from seg(2) assms(4) show "seg \<noteq> ''.''" by auto
  qed
  have split_p: "str_split CHR ''/'' (p @ ''/'') = str_split CHR ''/'' p @ [[]]"
    using str_split_append [of "CHR ''/''" p "[]"] by simp
  have split_whole: "str_split CHR ''/'' (cwd @ ''/'' @ p @ ''/'')
                       = str_split CHR ''/'' cwd @ str_split CHR ''/'' p @ [[]]"
    using str_split_append [of "CHR ''/''" cwd "p @ ''/''"] split_p by simp
  have kept: "seg \<in> set (res @ filter ?keep (str_split CHR ''/'' p @ [[]]))" for res
    using seg keep by simp
  have "foldl (normalizeStep allow) [] (str_split CHR ''/'' (p @ ''/''))
          = [] @ filter ?keep (str_split CHR ''/'' p @ [[]])"
    unfolding split_p by (rule normalize_no_parent [OF no_parent])
  then have "seg \<in> set (foldl (normalizeStep allow) [] (str_split CHR ''/'' (p @ ''/'')))"
    using kept [of "[]"] by simp
  then show "c \<in> set (normalizeString (p @ ''/'') allow)"
    unfolding normalizeString_def using seg(2) by (rule str_join_member)
  have "foldl (normalizeStep allow) [] (str_split CHR ''/'' (cwd @ ''/'' @ p @ ''/''))
          = foldl (normalizeStep allow) [] (str_split CHR ''/'' cwd)
              @ filter ?keep (str_split CHR ''/'' p @ [[]])"
  proof -
    have "foldl (normalizeStep allow) [] (str_split CHR ''/'' cwd @ (str_split CHR ''/'' p @ [[]]))
            = foldl (normalizeStep allow) (foldl (normalizeStep allow) [] (str_split CHR ''/'' cwd))
                (str_split CHR ''/'' p @ [[]])"
      by (rule foldl_append)
    also have "\<dots> = foldl (normalizeStep allow) [] (str_split CHR ''/'' cwd)
              @ filter ?keep (str_split CHR ''/'' p @ [[]])"
      by (rule normalize_no_parent [OF no_parent])
    finally show ?thesis
      unfolding split_whole .
  qed
  then have "seg \<in> set (foldl (normalizeStep allow) [] (str_split CHR ''/'' (cwd @ ''/'' @ p @ ''/'')))"
    using kept [of "foldl (normalizeStep allow) [] (str_split CHR ''/'' cwd)"] by simp
  then show "c \<in> set (normalizeString (cwd @ ''/'' @ p @ ''/'') allow)"
    unfolding normalizeString_def using seg(2) by (rule str_join_member)
qed

lemma path_resolve_keeps:
  assumes "\<not> str_includes p ''..''" and "c \<in> set p" and "c \<noteq> CHR ''/''" and "c \<noteq> CHR ''.''"
  shows "c \<in> set (path_resolve cwd p)"
proof -
  from assms(2) have "p \<noteq> []" by auto
  have a: "c \<in> set (normalizeString (p @ ''/'') allow)" for allow
    using normalizeString_keeps(1) [OF assms] .
  have b: "c \<in> set (normalizeString (cwd @ ''/'' @ p @ ''/'') allow)" for allow
    using normalizeString_keeps(2) [OF assms] .
  from a [of True] have a': "normalizeString (p @ ''/'') True \<noteq> []" by auto
  from b [of True] have b': "normalizeString (cwd @ ''/'' @ p @ ''/'') True \<noteq> []" by auto
  show ?thesis
  proof (cases "isAbsolute p \<or> cwd = []")
    case True
    with \<open>p \<noteq> []\<close> a a' show ?thesis
      by (simp add: path_resolve_def Let_def)
  next
    case False
    with \<open>p \<noteq> []\<close> b b' show ?thesis
      by (simp add: path_resolve_def Let_def)
  qed
qed

lemma raw_home_token_rejected:
  assumes "\<not> str_includes p ''..''" and "str_includes p ''~''"
  shows "validateAndSanitizePath cwd p = None"
proof -
  from assms(2) have "CHR ''~'' \<in> set p" by (simp add: str_includes_char)
  then have "CHR ''~'' \<in> set (path_resolve cwd p)"
    using path_resolve_keeps [OF assms(1)] by simp
  then have "str_includes (path_resolve cwd p) ''~''" by (simp add: str_includes_char)
  then show ?thesis by (simp add: validateAndSanitizePath_def Let_def)
qed

section \<open>The path guard\<close>

text \<open>
  Claim C1, as the code has it.  \<open>validateAndSanitizePath\<close> resolves its input first and
  checks the resolved path only.  It returns null whenever the resolved path contains
  \<open>..\<close> or \<open>~\<close> (so for every input that contains \<open>~\<close> and no \<open>..\<close>), whenever the
  resolved path is neither one of the two allowed directories nor below one, and
  whenever the extension of the resolved path, in lower case, is not one of \<open>.mp3\<close>,
  \<open>.wav\<close>, \<open>.flac\<close>, \<open>.aiff\<close>.  The result is the resolved path when none of these
  holds and null otherwise, never another path.
\<close>

theorem validateAndSanitizePath_rejects:
  "(str_includes (path_resolve cwd p) ''..'' \<or> str_includes (path_resolve cwd p) ''~''
      \<longrightarrow> validateAndSanitizePath cwd p = None)
   \<and> (str_includes p ''~'' \<and> \<not> str_includes p ''..'' \<longrightarrow> validateAndSanitizePath cwd p = None)
   \<and> (\<not> (startsWith (path_resolve cwd p) (path_resolve cwd (uploadsDir cwd) @ ''/'')
           \<or> path_resolve cwd p = path_resolve cwd (uploadsDir cwd)
           \<or> startsWith (path_resolve cwd p) (path_resolve cwd (resultDir cwd) @ ''/'')
           \<or> path_resolve cwd p = path_resolve cwd (resultDir cwd))
      \<longrightarrow> validateAndSanitizePath cwd p = None)
   \<and> (toLowerCase (path_extname (path_resolve cwd p)) \<notin> {''.mp3'', ''.wav'', ''.flac'', ''.aiff''}
      \<longrightarrow> validateAndSanitizePath cwd p = None)
   \<and> (validateAndSanitizePath cwd p = None \<or> validateAndSanitizePath cwd p = Some (path_resolve cwd p))
   \<and> (validateAndSanitizePath cwd p = None \<longrightarrow>
        str_includes (path_resolve cwd p) ''..'' \<or> str_includes (path_resolve cwd p) ''~''
        \<or> \<not> (startsWith (path_resolve cwd p) (path_resolve cwd (uploadsDir cwd) @ ''/'')
             \<or> path_resolve cwd p = path_resolve cwd (uploadsDir cwd)
             \<or> startsWith (path_resolve cwd p) (path_resolve cwd (resultDir cwd) @ ''/'')
             \<or> path_resolve cwd p = path_resolve cwd (resultDir cwd))
        \<or> toLowerCase (path_extname (path_resolve cwd p)) \<notin> {''.mp3'', ''.wav'', ''.flac'', ''.aiff''})"
proof -
  have home: "str_includes p ''~'' \<and> \<not> str_includes p ''..'' \<longrightarrow> validateAndSanitizePath cwd p = None"
    using raw_home_token_rejected [of p cwd] by blast
  have rest: "validateAndSanitizePath cwd p =
      (if str_includes (path_resolve cwd p) ''..'' \<or> str_includes (path_resolve cwd p) ''~''
          \<or> \<not> (startsWith (path_resolve cwd p) (path_resolve cwd (uploadsDir cwd) @ ''/'')
             \<or> path_resolve cwd p = path_resolve cwd (uploadsDir cwd)
             \<or> startsWith (path_resolve cwd p) (path_resolve cwd (resultDir cwd) @ ''/'')
             \<or> path_resolve cwd p = path_resolve cwd (resultDir cwd))
          \<or> toLowerCase (path_extname (path_resolve cwd p)) \<notin> {''.mp3'', ''.wav'', ''.flac'', ''.aiff''}
       then None else Some (path_resolve cwd p))"
    by (auto simp add: validateAndSanitizePath_def isInAllowedDirectory_def ALLOWED_DIRECTORIES_def
          ALLOWED_EXTENSIONS_def Let_def)
  from home show ?thesis
    by (simp add: rest)
qed

theorem validateAndSanitizePath_rejects_witness:
  "validateAndSanitizePath ''/srv'' ''/srv/uploads/a..b.mp3'' = None
   \<and> validateAndSanitizePath ''/srv'' ''uploads/~song.mp3'' = None
   \<and> validateAndSanitizePath ''/srv'' ''/etc/passwd.mp3'' = None
   \<and> validateAndSanitizePath ''/srv'' ''/srv/uploads/notes.txt'' = None
   \<and> validateAndSanitizePath ''/srv'' ''uploads/song.mp3'' = Some ''/srv/uploads/song.mp3''"
proof -
  have r1: "path_resolve ''/srv'' ''/srv/uploads/a..b.mp3'' = ''/srv/uploads/a..b.mp3''"
    and r2: "path_resolve ''/srv'' ''/etc/passwd.mp3'' = ''/etc/passwd.mp3''"
    and r3: "path_resolve ''/srv'' ''/srv/uploads/notes.txt'' = ''/srv/uploads/notes.txt''"
    and r4: "path_resolve ''/srv'' ''uploads/song.mp3'' = ''/srv/uploads/song.mp3''"
    and u: "path_resolve ''/srv'' (uploadsDir ''/srv'') = ''/srv/uploads''"
    and r: "path_resolve ''/srv'' (resultDir ''/srv'') = ''/srv/results''"
    by code_simp+
  have a: "str_includes ''/srv/uploads/a..b.mp3'' ''..''"
    by code_simp
  have b: "str_includes ''uploads/~song.mp3'' ''~'' \<and> \<not> str_includes ''uploads/~song.mp3'' ''..''"
    by code_simp
  have c: "\<not> (startsWith ''/etc/passwd.mp3'' (''/srv/uploads'' @ ''/'') \<or> ''/etc/passwd.mp3'' = ''/srv/uploads''
             \<or> startsWith ''/etc/passwd.mp3'' (''/srv/results'' @ ''/'') \<or> ''/etc/passwd.mp3'' = ''/srv/results'')"
    by code_simp
  have d: "toLowerCase (path_extname ''/srv/uploads/notes.txt'') \<notin> {''.mp3'', ''.wav'', ''.flac'', ''.aiff''}"
    by code_simp
  have e: "validateAndSanitizePath ''/srv'' ''uploads/song.mp3'' \<noteq> None"
    by code_simp
  have "validateAndSanitizePath ''/srv'' ''/srv/uploads/a..b.mp3'' = None"
    using validateAndSanitizePath_rejects [of "''/srv''" "''/srv/uploads/a..b.mp3''"] a by (simp only: r1) simp
  moreover have "validateAndSanitizePath ''/srv'' ''uploads/~song.mp3'' = None"
    using validateAndSanitizePath_rejects [of "''/srv''" "''uploads/~song.mp3''"] b by blast
  moreover have "validateAndSanitizePath ''/srv'' ''/etc/passwd.mp3'' = None"
    using validateAndSanitizePath_rejects [of "''/srv''" "''/etc/passwd.mp3''"] c
    by (simp only: r2 u r) blast
  moreover have "validateAndSanitizePath ''/srv'' ''/srv/uploads/notes.txt'' = None"
    using validateAndSanitizePath_rejects [of "''/srv''" "''/srv/uploads/notes.txt''"] d
    by (simp only: r3) blast
  moreover have "validateAndSanitizePath ''/srv'' ''uploads/song.mp3'' = Some ''/srv/uploads/song.mp3''"
    using validateAndSanitizePath_rejects [of "''/srv''" "''uploads/song.mp3''"] e
    by (simp only: r4) blast
  ultimately show ?thesis by blast
qed

theorem raw_parent_token_counterexample:
  "str_includes ''/srv/uploads/a/../b.mp3'' ''..''
   \<and> validateAndSanitizePath ''/srv'' ''/srv/uploads/a/../b.mp3'' = Some ''/srv/uploads/b.mp3''
   \<and> str_includes ''/srv/uploads/~a/../b.mp3'' ''~''
   \<and> validateAndSanitizePath ''/srv'' ''/srv/uploads/~a/../b.mp3'' = Some ''/srv/uploads/b.mp3''"
  by code_simp

section \<open>Facts about numbers\<close>

lemma isDigit_digit: "d < 10 \<Longrightarrow> isDigit (char_of (48 + d :: nat))"
  by (simp add: isDigit_def)

lemma toString_nat_digits: "\<forall>c \<in> set (toString_nat n). isDigit c"
proof (induction n rule: toString_nat.induct)
  case (1 n)
  show ?case
  proof (cases "n < 10")
    case True
    then show ?thesis by (subst toString_nat.simps) (simp add: isDigit_digit)
  next
    case False
    have "isDigit (char_of (48 + n mod 10))" by (rule isDigit_digit) simp
    with False 1 show ?thesis by (subst toString_nat.simps) simp
  qed
qed

lemma toString_nat_nonempty: "toString_nat n \<noteq> []"
  by (subst toString_nat.simps) simp

lemma digitsValue_snoc: "digitsValue (ds @ [c]) = 10 * digitsValue ds + ((of_char c :: nat) - 48)"
  by (simp add: digitsValue_def)

lemma digitsValue_toString_nat: "digitsValue (toString_nat n) = n"
proof (induction n rule: toString_nat.induct)
  case (1 n)
  show ?case
  proof (cases "n < 10")
    case True
    then show ?thesis by (subst toString_nat.simps) (simp add: digitsValue_def)
  next
    case False
    with 1 have "digitsValue (toString_nat (n div 10)) = n div 10" by simp
    moreover have "toString_nat n = toString_nat (n div 10) @ [char_of (48 + n mod 10)]"
      using False by (subst toString_nat.simps) simp
    ultimately show ?thesis by (simp add: digitsValue_snoc)
  qed
qed

lemma toString_nat_inj:
  assumes "toString_nat a = toString_nat b"
  shows "a = b"
proof -
  have "digitsValue (toString_nat a) = digitsValue (toString_nat b)"
    by (simp only: assms)
  then show ?thesis
    by (simp only: digitsValue_toString_nat)
qed

lemma isDigit_plain:
  assumes "isDigit c"
  shows "\<not> isWhiteSpace c \<and> c \<noteq> CHR ''-'' \<and> c \<noteq> CHR ''+''"
proof -
  from assms have range: "48 \<le> (of_char c :: nat)" "(of_char c :: nat) \<le> 57"
    by (simp_all add: isDigit_def)
  have "c \<noteq> CHR ''-''"
  proof
    assume "c = CHR ''-''"
    then have "(of_char c :: nat) = 45" by simp
    with range show False by simp
  qed
  moreover have "c \<noteq> CHR ''+''"
  proof
    assume "c = CHR ''+''"
    then have "(of_char c :: nat) = 43" by simp
    with range show False by simp
  qed
  moreover from range have "\<not> isWhiteSpace c"
    unfolding isWhiteSpace_def by simp
  ultimately show ?thesis by simp
qed

lemma parseInt10_digits:
  assumes "ds \<noteq> []" and "\<forall>c \<in> set ds. isDigit c"
  shows "parseInt10 ds = toNumber 1 (int (digitsValue ds))"
proof -
  obtain c cs where ds: "ds = c # cs" using assms(1) by (cases ds) auto
  with assms(2) have c: "isDigit c" by simp
  then have plain: "\<not> isWhiteSpace c" "c \<noteq> CHR ''-''" "c \<noteq> CHR ''+''"
    using isDigit_plain by blast+
  have "dropWhile isWhiteSpace ds = ds" using ds plain by simp
  moreover have "signOf ds = (1, ds)" using ds plain by (simp add: signOf_def)
  moreover have tw: "takeWhile isDigit ds = ds" using assms(2) by (simp add: takeWhile_eq_all_conv)
  ultimately show ?thesis using assms(1) by (simp add: parseInt10_def Let_def tw)
qed

lemma parseInt10_toString_nat: "parseInt10 (toString_nat n) = toNumber 1 (int n)"
  using parseInt10_digits [OF toString_nat_nonempty toString_nat_digits, of n]
  by (simp add: digitsValue_toString_nat)

lemma toString_of_nat: "toString (Finite (int n)) = toString_nat n"
  by (simp add: toString_def)

lemma digit_chars:
  "char_of (48::nat) = CHR ''0''" "char_of (49::nat) = CHR ''1''" "char_of (50::nat) = CHR ''2''"
  "char_of (51::nat) = CHR ''3''" "char_of (52::nat) = CHR ''4''" "char_of (53::nat) = CHR ''5''"
  "char_of (54::nat) = CHR ''6''" "char_of (55::nat) = CHR ''7''" "char_of (56::nat) = CHR ''8''"
  "char_of (57::nat) = CHR ''9''"
  by code_simp+


section \<open>Facts about doubles\<close>

lemma exponentOf_bounds:
  "2 ^ 53 \<le> m \<Longrightarrow>
     0 < exponentOf m \<and> 2 ^ 52 \<le> m div 2 ^ exponentOf m \<and> m div 2 ^ exponentOf m < 2 ^ 53"
proof (induction m rule: exponentOf.induct)
  case (1 m)
  have e: "exponentOf m = Suc (exponentOf (m div 2))"
    using "1.prems" by (subst exponentOf.simps) simp
  show ?case
  proof (cases "m div 2 < 2 ^ 53")
    case True
    then have "exponentOf (m div 2) = 0"
      by (subst exponentOf.simps) simp
    with e have one: "exponentOf m = Suc 0" by simp
    from "1.prems" have "2 ^ 52 \<le> m div 2" by simp
    with True show ?thesis by (simp add: one)
  next
    case False
    then have large: "2 ^ 53 \<le> m div 2" by simp
    have "\<not> m < 2 ^ 53" using "1.prems" by simp
    from "1.IH" [OF this large]
    have IH: "2 ^ 52 \<le> m div 2 div 2 ^ exponentOf (m div 2)"
      "m div 2 div 2 ^ exponentOf (m div 2) < 2 ^ 53"
      by simp_all
    have "m div 2 ^ exponentOf m = m div 2 div 2 ^ exponentOf (m div 2)"
      by (simp add: e zdiv_zmult2_eq)
    with IH show ?thesis by (simp add: e)
  qed
qed

lemma roundToDouble_lower:
  assumes "2 ^ 53 < m"
  shows "(m div 2 ^ exponentOf m) * 2 ^ exponentOf m \<le> roundToDouble m"
proof -
  have "(m div 2 ^ exponentOf m) * 2 ^ exponentOf m
          \<le> (m div 2 ^ exponentOf m + 1) * 2 ^ exponentOf m"
    by (rule mult_right_mono) simp_all
  then show ?thesis
    using assms by (simp add: roundToDouble_def Let_def)
qed

lemma roundToDouble_large:
  assumes "2 ^ 53 < m"
  shows "2 ^ 53 \<le> roundToDouble m"
proof -
  from assms have "2 ^ 53 \<le> m" by simp
  from exponentOf_bounds [OF this]
  have e: "0 < exponentOf m" and q: "2 ^ 52 \<le> m div 2 ^ exponentOf m" by simp_all
  from e have "(2::int) ^ 1 \<le> 2 ^ exponentOf m"
    by (intro power_increasing) simp_all
  then have two: "(2::int) \<le> 2 ^ exponentOf m" by simp
  have "(2::int) ^ 52 * 2 \<le> (m div 2 ^ exponentOf m) * 2 ^ exponentOf m"
    using q two by (intro mult_mono) simp_all
  with roundToDouble_lower [OF assms] show ?thesis by simp
qed


lemma toNumber_safe: "m \<le> 2 ^ 53 \<Longrightarrow> toNumber 1 m = Finite m"
  by (simp add: toNumber_def)

lemma toNumber_unsafe:
  assumes "MAX_SAFE_INTEGER < m"
  shows "\<not> validateInteger (toNumber 1 m)"
proof (cases "m \<le> 2 ^ 53")
  case True
  with assms show ?thesis
    by (simp add: toNumber_def validateInteger_def)
next
  case False
  then have "2 ^ 53 < m" by simp
  from roundToDouble_large [OF this] False show ?thesis
    by (simp add: toNumber_def validateInteger_def MAX_SAFE_INTEGER_def)
qed


lemma fromInt_safe: "\<bar>i\<bar> \<le> 2 ^ 53 \<Longrightarrow> fromInt i = Finite i"
  by (simp add: fromInt_def toNumber_def)

section \<open>Facts about the Range header\<close>

lemma str_split_none: "sep \<notin> set s \<Longrightarrow> str_split sep s = [s]"
  by (induction s) auto

lemma removeFirst_prefix: "pat \<noteq> [] \<Longrightarrow> removeFirst pat (pat @ s) = s"
  by (cases pat) (simp_all add: startsWith_def)

lemma toString_nat_no_dash: "CHR ''-'' \<notin> set (toString_nat n)"
  using toString_nat_digits [of n] isDigit_plain by blast

lemma rangeParts_closed:
  "rangeParts (''bytes='' @ toString_nat a @ ''-'' @ toString_nat b) = [toString_nat a, toString_nat b]"
proof -
  have "removeFirst ''bytes='' (''bytes='' @ (toString_nat a @ ''-'' @ toString_nat b))
          = toString_nat a @ ''-'' @ toString_nat b"
    by (rule removeFirst_prefix) simp
  moreover have "str_split CHR ''-'' (toString_nat a @ CHR ''-'' # toString_nat b)
          = str_split CHR ''-'' (toString_nat a) @ str_split CHR ''-'' (toString_nat b)"
    by (rule str_split_append)
  ultimately show ?thesis
    by (simp add: rangeParts_def str_split_none toString_nat_no_dash)
qed

lemma rangeParts_open:
  "rangeParts (''bytes='' @ toString_nat a @ ''-'') = [toString_nat a, []]"
proof -
  have "removeFirst ''bytes='' (''bytes='' @ (toString_nat a @ ''-'')) = toString_nat a @ ''-''"
    by (rule removeFirst_prefix) simp
  moreover have "str_split CHR ''-'' (toString_nat a @ CHR ''-'' # [])
          = str_split CHR ''-'' (toString_nat a) @ str_split CHR ''-'' []"
    by (rule str_split_append)
  ultimately show ?thesis
    by (simp add: rangeParts_def str_split_none toString_nat_no_dash)
qed

lemma range_closed:
  "rangeStart (''bytes='' @ toString_nat a @ ''-'' @ toString_nat b) = toNumber 1 (int a)"
  "rangeEnd (''bytes='' @ toString_nat a @ ''-'' @ toString_nat b) fileSize = toNumber 1 (int b)"
  unfolding rangeStart_def rangeEnd_def rangeParts_closed
  by (simp_all add: parseInt10_toString_nat toString_nat_nonempty)

lemma range_open:
  "rangeStart (''bytes='' @ toString_nat a @ ''-'') = toNumber 1 (int a)"
  "rangeEnd (''bytes='' @ toString_nat a @ ''-'') fileSize = subtract (Finite (int fileSize)) (Finite 1)"
  unfolding rangeStart_def rangeEnd_def rangeParts_open
  by (simp_all add: parseInt10_toString_nat)

lemma streamFile_ranged:
  assumes "r \<noteq> []"
  shows "streamFile safePath fileSize (Some r) =
           (if createReadStream_accepts (rangeStart r) (rangeEnd r fileSize)
            then (WriteHead 206 (rangeHead (rangeStart r) (rangeEnd r fileSize) fileSize),
                  [ExistsSync safePath, StatSync safePath,
                   CreateReadStream safePath (Some (rangeStart r, rangeEnd r fileSize))])
            else (Json 500 ''Error streaming audio'',
                  [ExistsSync safePath, StatSync safePath,
                   CreateReadStream safePath (Some (rangeStart r, rangeEnd r fileSize))]))"
  using assms by (simp add: streamFile_def Let_def)

lemma chunksize_nat:
  assumes "a \<le> b" and "int b \<le> MAX_SAFE_INTEGER"
  shows "chunksize (Finite (int a)) (Finite (int b)) = Finite (int (b - a + 1))"
proof -
  have "\<bar>int b - int a\<bar> \<le> 2 ^ 53" "\<bar>int b - int a + 1\<bar> \<le> 2 ^ 53"
    using assms by (simp_all add: MAX_SAFE_INTEGER_def)
  then have "chunksize (Finite (int a)) (Finite (int b)) = Finite (int b - int a + 1)"
    by (simp add: chunksize_def fromInt_safe)
  moreover have "int b - int a + 1 = int (b - a + 1)" using assms(1) by simp
  ultimately show ?thesis by (simp only:)
qed

lemma rangeHead_nat:
  assumes "a \<le> b" and "int b \<le> MAX_SAFE_INTEGER"
  shows "rangeHead (Finite (int a)) (Finite (int b)) fileSize =
           [(''Content-Range'', ''bytes '' @ toString_nat a @ ''-'' @ toString_nat b @ ''/'' @ toString_nat fileSize),
            (''Accept-Ranges'', ''bytes''),
            (''Content-Length'', toString_nat (b - a + 1)),
            (''Content-Type'', ''audio/mpeg'')]"
  by (simp only: rangeHead_def chunksize_nat [OF assms] toString_of_nat)


lemma accepts_nat:
  assumes "a \<le> b" and "int b \<le> MAX_SAFE_INTEGER"
  shows "createReadStream_accepts (Finite (int a)) (Finite (int b))"
  using assms by (simp add: createReadStream_accepts_def validateInteger_def exceeds_def)

lemma safe_nat:
  assumes "int n \<le> MAX_SAFE_INTEGER"
  shows "toNumber 1 (int n) = Finite (int n)"
  using assms by (simp add: toNumber_safe MAX_SAFE_INTEGER_def)


lemma refuses_beyond:
  assumes "S \<le> a"
  shows "\<not> createReadStream_accepts (toNumber 1 (int a)) (subtract (Finite (int S)) (Finite 1))"
proof (cases "int a \<le> MAX_SAFE_INTEGER")
  case True
  with assms have "\<bar>int S - 1\<bar> \<le> 2 ^ 53"
    by (simp add: MAX_SAFE_INTEGER_def)
  then have "subtract (Finite (int S)) (Finite 1) = Finite (int S - 1)"
    by (simp add: fromInt_safe)
  with True assms show ?thesis
    by (simp add: safe_nat createReadStream_accepts_def exceeds_def)
next
  case False
  then have "\<not> validateInteger (toNumber 1 (int a))"
    by (simp add: toNumber_unsafe)
  then show ?thesis
    by (simp add: createReadStream_accepts_def)
qed

lemma streamFile_closed:
  assumes "a \<le> b" and "int b \<le> MAX_SAFE_INTEGER"
  shows "streamFile safePath fileSize (Some (''bytes='' @ toString_nat a @ ''-'' @ toString_nat b)) =
           (WriteHead 206
              [(''Content-Range'', ''bytes '' @ toString_nat a @ ''-'' @ toString_nat b @ ''/'' @ toString_nat fileSize),
               (''Accept-Ranges'', ''bytes''),
               (''Content-Length'', toString_nat (b - a + 1)),
               (''Content-Type'', ''audio/mpeg'')],
            [ExistsSync safePath, StatSync safePath,
             CreateReadStream safePath (Some (Finite (int a), Finite (int b)))])"
proof -
  have a: "int a \<le> MAX_SAFE_INTEGER" using assms by simp
  have "''bytes='' @ toString_nat a @ ''-'' @ toString_nat b \<noteq> []" by simp
  from streamFile_ranged [OF this] show ?thesis
    by (simp only: range_closed safe_nat [OF a] safe_nat [OF assms(2)] accepts_nat [OF assms]
          rangeHead_nat [OF assms] if_True)
qed

lemma streamFile_open:
  assumes "a < fileSize" and "int fileSize - 1 \<le> MAX_SAFE_INTEGER"
  shows "streamFile safePath fileSize (Some (''bytes='' @ toString_nat a @ ''-'')) =
           (WriteHead 206
              [(''Content-Range'', ''bytes '' @ toString_nat a @ ''-'' @ toString_nat (fileSize - 1) @ ''/'' @ toString_nat fileSize),
               (''Accept-Ranges'', ''bytes''),
               (''Content-Length'', toString_nat (fileSize - a)),
               (''Content-Type'', ''audio/mpeg'')],
            [ExistsSync safePath, StatSync safePath,
             CreateReadStream safePath (Some (Finite (int a), Finite (int (fileSize - 1))))])"
proof -
  have e: "int fileSize - 1 = int (fileSize - 1)" using assms(1) by simp
  have le: "a \<le> fileSize - 1" using assms(1) by simp
  have len: "fileSize - 1 - a + 1 = fileSize - a" using assms(1) by simp
  have safe: "int (fileSize - 1) \<le> MAX_SAFE_INTEGER" using assms(2) by (simp only: e)
  have a: "int a \<le> MAX_SAFE_INTEGER" using le safe by simp
  have "\<bar>int fileSize - 1\<bar> \<le> 2 ^ 53"
    using assms by (simp add: MAX_SAFE_INTEGER_def)
  then have "subtract (Finite (int fileSize)) (Finite 1) = Finite (int fileSize - 1)"
    by (simp add: fromInt_safe)
  then have last: "subtract (Finite (int fileSize)) (Finite 1) = Finite (int (fileSize - 1))"
    by (simp only: e)
  have "''bytes='' @ toString_nat a @ ''-'' \<noteq> []" by simp
  from streamFile_ranged [OF this] show ?thesis
    by (simp only: range_open safe_nat [OF a] last accepts_nat [OF le safe] rangeHead_nat [OF le safe]
          len if_True)
qed

lemma streamFile_beyond:
  assumes "fileSize \<le> a"
  shows "streamFile safePath fileSize (Some (''bytes='' @ toString_nat a @ ''-'')) =
           (Json 500 ''Error streaming audio'',
            [ExistsSync safePath, StatSync safePath,
             CreateReadStream safePath
               (Some (toNumber 1 (int a), subtract (Finite (int fileSize)) (Finite 1)))])"
proof -
  have "''bytes='' @ toString_nat a @ ''-'' \<noteq> []" by simp
  from streamFile_ranged [OF this] show ?thesis
    by (simp only: range_open refuses_beyond [OF assms] if_False)
qed



lemma streamFile_full:
  "streamFile safePath fileSize None =
     (WriteHead 200 [(''Content-Length'', toString_nat fileSize), (''Content-Type'', ''audio/mpeg'')],
      [ExistsSync safePath, StatSync safePath, CreateReadStream safePath None])"
  by (simp add: streamFile_def fullHead_def)

lemma audioHandler_streams:
  assumes "parseInt10 idParam = Finite i" and "getAudioTrack st i = Some track"
    and "type' = ''original'' \<or> type' = ''extended''"
    and "audioFilePath track type' versionQuery = Some filePath" and "filePath \<noteq> []"
    and "validateAndSanitizePath cwd filePath = Some safePath"
    and "fs safePath = Some fileSize"
  shows "audioHandler cwd st fs idParam type' versionQuery rangeHeader =
           streamFile safePath fileSize rangeHeader"
  using assms by (auto simp add: audioHandler_def)


section \<open>Range streaming\<close>

text \<open>
  Claim C6, as the code has it.  When the streaming route reaches a file of size \<open>S\<close>
  that exists: a header \<open>Range: bytes=a-b\<close> of a byte range (\<open>a \<le> b\<close>, with \<open>b\<close> at most
  \<open>Number.MAX_SAFE_INTEGER\<close>) is answered 206 with Content-Range \<open>bytes a-b/S\<close>,
  Accept-Ranges \<open>bytes\<close> and Content-Length \<open>b - a + 1\<close>, and the stream is opened from
  \<open>a\<close> to \<open>b\<close>; a header \<open>Range: bytes=a-\<close> with \<open>a\<close> inside the file has its end at
  \<open>S - 1\<close>; with no Range header the answer is 200 with Content-Length \<open>S\<close>.  A header
  \<open>Range: bytes=a-\<close> with \<open>a\<close> at or beyond the end of the file is not answered 206:
  its start exceeds its end \<open>S - 1\<close>, the read stream refuses it before the head is
  written, and the handler's catch block answers 500.
\<close>

theorem range_streaming:
  assumes "parseInt10 idParam = Finite i" and "getAudioTrack st i = Some track"
    and "type' = ''original'' \<or> type' = ''extended''"
    and "audioFilePath track type' versionQuery = Some filePath" and "filePath \<noteq> []"
    and "validateAndSanitizePath cwd filePath = Some safePath"
    and "fs safePath = Some S"
  shows "(a \<le> b \<and> int b \<le> MAX_SAFE_INTEGER \<longrightarrow>
            audioHandler cwd st fs idParam type' versionQuery
                (Some (''bytes='' @ toString_nat a @ ''-'' @ toString_nat b)) =
              (WriteHead 206
                 [(''Content-Range'', ''bytes '' @ toString_nat a @ ''-'' @ toString_nat b @ ''/'' @ toString_nat S),
                  (''Accept-Ranges'', ''bytes''),
                  (''Content-Length'', toString_nat (b - a + 1)),
                  (''Content-Type'', ''audio/mpeg'')],
               [ExistsSync safePath, StatSync safePath,
                CreateReadStream safePath (Some (Finite (int a), Finite (int b)))]))
       \<and> (a < S \<and> int S - 1 \<le> MAX_SAFE_INTEGER \<longrightarrow>
            audioHandler cwd st fs idParam type' versionQuery (Some (''bytes='' @ toString_nat a @ ''-'')) =
              (WriteHead 206
                 [(''Content-Range'', ''bytes '' @ toString_nat a @ ''-'' @ toString_nat (S - 1) @ ''/'' @ toString_nat S),
                  (''Accept-Ranges'', ''bytes''),
                  (''Content-Length'', toString_nat (S - a)),
                  (''Content-Type'', ''audio/mpeg'')],
               [ExistsSync safePath, StatSync safePath,
                CreateReadStream safePath (Some (Finite (int a), Finite (int (S - 1))))]))
       \<and> (S \<le> a \<longrightarrow>
            audioHandler cwd st fs idParam type' versionQuery (Some (''bytes='' @ toString_nat a @ ''-'')) =
              (Json 500 ''Error streaming audio'',
               [ExistsSync safePath, StatSync safePath,
                CreateReadStream safePath
                  (Some (toNumber 1 (int a), subtract (Finite (int S)) (Finite 1)))]))
       \<and> audioHandler cwd st fs idParam type' versionQuery None =
             (WriteHead 200 [(''Content-Length'', toString_nat S), (''Content-Type'', ''audio/mpeg'')],
              [ExistsSync safePath, StatSync safePath, CreateReadStream safePath None])"
  unfolding audioHandler_streams [where fs = fs, OF assms]
  using streamFile_closed [of a b safePath S] streamFile_open [of a S safePath]
    streamFile_beyond [of S a safePath] streamFile_full [of safePath S]
  by blast

theorem range_streaming_witness:
  "audioHandler ''/srv'' [7 \<mapsto> exampleTrack] exampleFiles ''7'' ''original'' None (Some ''bytes=100-199'') =
     (WriteHead 206
        [(''Content-Range'', ''bytes 100-199/1000''), (''Accept-Ranges'', ''bytes''),
         (''Content-Length'', ''100''), (''Content-Type'', ''audio/mpeg'')],
      [ExistsSync ''/srv/uploads/1700000000000-42.mp3'', StatSync ''/srv/uploads/1700000000000-42.mp3'',
       CreateReadStream ''/srv/uploads/1700000000000-42.mp3'' (Some (Finite 100, Finite 199))])
   \<and> audioHandler ''/srv'' [7 \<mapsto> exampleTrack] exampleFiles ''7'' ''original'' None (Some ''bytes=100-'') =
     (WriteHead 206
        [(''Content-Range'', ''bytes 100-999/1000''), (''Accept-Ranges'', ''bytes''),
         (''Content-Length'', ''900''), (''Content-Type'', ''audio/mpeg'')],
      [ExistsSync ''/srv/uploads/1700000000000-42.mp3'', StatSync ''/srv/uploads/1700000000000-42.mp3'',
       CreateReadStream ''/srv/uploads/1700000000000-42.mp3'' (Some (Finite 100, Finite 999))])
   \<and> audioHandler ''/srv'' [7 \<mapsto> exampleTrack] exampleFiles ''7'' ''original'' None (Some ''bytes=2000-'') =
     (Json 500 ''Error streaming audio'',
      [ExistsSync ''/srv/uploads/1700000000000-42.mp3'', StatSync ''/srv/uploads/1700000000000-42.mp3'',
       CreateReadStream ''/srv/uploads/1700000000000-42.mp3'' (Some (Finite 2000, Finite 999))])
   \<and> audioHandler ''/srv'' [7 \<mapsto> exampleTrack] exampleFiles ''7'' ''original'' None None =
     (WriteHead 200 [(''Content-Length'', ''1000''), (''Content-Type'', ''audio/mpeg'')],
      [ExistsSync ''/srv/uploads/1700000000000-42.mp3'', StatSync ''/srv/uploads/1700000000000-42.mp3'',
       CreateReadStream ''/srv/uploads/1700000000000-42.mp3'' None])"
proof -
  have id: "parseInt10 ''7'' = Finite 7"
    by code_simp
  have track: "getAudioTrack [7 \<mapsto> exampleTrack] 7 = Some exampleTrack"
    by (simp add: getAudioTrack_def)
  have path: "audioFilePath exampleTrack ''original'' None = Some ''/srv/uploads/1700000000000-42.mp3''"
    by code_simp
  have safe: "validateAndSanitizePath ''/srv'' ''/srv/uploads/1700000000000-42.mp3''
                = Some ''/srv/uploads/1700000000000-42.mp3''"
    by code_simp
  have onDisk: "exampleFiles ''/srv/uploads/1700000000000-42.mp3'' = Some 1000"
    by (simp add: exampleFiles_def)
  have kind: "''original'' = ''original'' \<or> ''original'' = ''extended''"
    and nonempty: "''/srv/uploads/1700000000000-42.mp3'' \<noteq> []"
    by simp_all
  have digits: "toString_nat 100 = ''100''" "toString_nat 199 = ''199''" "toString_nat 1000 = ''1000''"
    "toString_nat 999 = ''999''" "toString_nat 900 = ''900''" "toString_nat 2000 = ''2000''"
    by (simp_all add: toString_nat.simps digit_chars)
  have bounds: "(100::nat) \<le> 199 \<and> int 199 \<le> MAX_SAFE_INTEGER"
    "(100::nat) < 1000 \<and> int 1000 - 1 \<le> MAX_SAFE_INTEGER"
    "(1000::nat) \<le> 2000"
    by (simp_all add: MAX_SAFE_INTEGER_def)
  have numbers: "toNumber 1 2000 = Finite 2000" "fromInt 999 = Finite 999"
    by (simp_all add: toNumber_def fromInt_def)
  note inside = range_streaming [where fs = exampleFiles and a = 100 and b = 199,
      OF id track kind path nonempty safe onDisk]
  note beyond = range_streaming [where fs = exampleFiles and a = 2000 and b = 199,
      OF id track kind path nonempty safe onDisk]
  from inside bounds have closed: "audioHandler ''/srv'' [7 \<mapsto> exampleTrack] exampleFiles ''7'' ''original'' None
        (Some (''bytes='' @ toString_nat 100 @ ''-'' @ toString_nat 199)) =
      (WriteHead 206
         [(''Content-Range'', ''bytes '' @ toString_nat 100 @ ''-'' @ toString_nat 199 @ ''/'' @ toString_nat 1000),
          (''Accept-Ranges'', ''bytes''),
          (''Content-Length'', toString_nat (199 - 100 + 1)),
          (''Content-Type'', ''audio/mpeg'')],
       [ExistsSync ''/srv/uploads/1700000000000-42.mp3'', StatSync ''/srv/uploads/1700000000000-42.mp3'',
        CreateReadStream ''/srv/uploads/1700000000000-42.mp3'' (Some (Finite (int 100), Finite (int 199)))])"
    by blast
  from inside bounds have "open": "audioHandler ''/srv'' [7 \<mapsto> exampleTrack] exampleFiles ''7'' ''original'' None
        (Some (''bytes='' @ toString_nat 100 @ ''-'')) =
      (WriteHead 206
         [(''Content-Range'', ''bytes '' @ toString_nat 100 @ ''-'' @ toString_nat (1000 - 1) @ ''/'' @ toString_nat 1000),
          (''Accept-Ranges'', ''bytes''),
          (''Content-Length'', toString_nat (1000 - 100)),
          (''Content-Type'', ''audio/mpeg'')],
       [ExistsSync ''/srv/uploads/1700000000000-42.mp3'', StatSync ''/srv/uploads/1700000000000-42.mp3'',
        CreateReadStream ''/srv/uploads/1700000000000-42.mp3'' (Some (Finite (int 100), Finite (int (1000 - 1))))])"
    by blast
  from beyond bounds have refused: "audioHandler ''/srv'' [7 \<mapsto> exampleTrack] exampleFiles ''7'' ''original'' None
        (Some (''bytes='' @ toString_nat 2000 @ ''-'')) =
      (Json 500 ''Error streaming audio'',
       [ExistsSync ''/srv/uploads/1700000000000-42.mp3'', StatSync ''/srv/uploads/1700000000000-42.mp3'',
        CreateReadStream ''/srv/uploads/1700000000000-42.mp3''
          (Some (toNumber 1 (int 2000), subtract (Finite (int 1000)) (Finite 1)))])"
    by blast
  from inside have full: "audioHandler ''/srv'' [7 \<mapsto> exampleTrack] exampleFiles ''7'' ''original'' None None =
     (WriteHead 200 [(''Content-Length'', toString_nat 1000), (''Content-Type'', ''audio/mpeg'')],
      [ExistsSync ''/srv/uploads/1700000000000-42.mp3'', StatSync ''/srv/uploads/1700000000000-42.mp3'',
       CreateReadStream ''/srv/uploads/1700000000000-42.mp3'' None])"
    by blast
  from closed "open" refused full show ?thesis
    by (simp add: digits numbers)
qed

theorem open_range_counterexample:
  "audioHandler ''/srv'' [7 \<mapsto> exampleTrack] exampleFiles ''7'' ''original'' None (Some ''bytes=1000-'') =
     (Json 500 ''Error streaming audio'',
      [ExistsSync ''/srv/uploads/1700000000000-42.mp3'', StatSync ''/srv/uploads/1700000000000-42.mp3'',
       CreateReadStream ''/srv/uploads/1700000000000-42.mp3'' (Some (Finite 1000, Finite 999))])"
  by code_simp

section \<open>Ranges that are not byte ranges\<close>




section \<open>Facts about the processing route and the job\<close>

lemma toString_nat_small:
  "toString_nat 1 = ''1''" "toString_nat 2 = ''2''"
  "toString_nat (Suc 0) = ''1''" "toString_nat (Suc (Suc 0)) = ''2''"
  by (simp_all add: toString_nat.simps digit_chars)

lemma safeFilename_distinct:
  assumes "originalFilename t1 = originalFilename t2"
    and "length (arrayOrEmpty (extendedPaths t1)) \<noteq> length (arrayOrEmpty (extendedPaths t2))"
  shows "safeFilename t1 \<noteq> safeFilename t2"
proof
  assume "safeFilename t1 = safeFilename t2"
  with assms(1) have "toString_nat (length (arrayOrEmpty (extendedPaths t1)) + 1)
                      = toString_nat (length (arrayOrEmpty (extendedPaths t2)) + 1)"
    by (simp add: safeFilename_def Let_def)
  then have "length (arrayOrEmpty (extendedPaths t1)) + 1 = length (arrayOrEmpty (extendedPaths t2)) + 1"
    by (rule toString_nat_inj)
  with assms(2) show False by simp
qed

lemma processHandler_accepted:
  assumes "parseInt10 idParam = Finite i" and "getAudioTrack st i = Some track"
    and "processHandler cwd st idParam body = (r, st1, Some j)"
  shows "\<exists>s. body = Some s \<and> st1 = updateAudioTrack st i (dispatchUpdate track s) \<and> jobTrack j = i
           \<and> createSafeOutputPath cwd (resultDir cwd) (safeFilename track) = Some (jobOutput j)"
  using assms
  by (auto simp add: processHandler_def Let_def split: option.splits if_splits)

lemma dispatchUpdate_fields:
  "extendedPaths (fold assign (dispatchUpdate t0 s) t) = extendedPaths t"
  "extendedDurations (fold assign (dispatchUpdate t0 s) t) = extendedDurations t"
  "versionCount (fold assign (dispatchUpdate t0 s) t) = versionCount t"
  "originalFilename (fold assign (dispatchUpdate t0 s) t) = originalFilename t"
  by (simp_all add: dispatchUpdate_def)

lemma completedUpdate_fields:
  "extendedPaths (fold assign (completedUpdate t0 out dur) t) = Some (arrayOrEmpty (extendedPaths t0) @ [Some out])"
  "extendedDurations (fold assign (completedUpdate t0 out dur) t) = Some (arrayOrEmpty (extendedDurations t0) @ [dur])"
  "versionCount (fold assign (completedUpdate t0 out dur) t) = Some (orElse (versionCount t0) 1 + 1)"
  "originalFilename (fold assign (completedUpdate t0 out dur) t) = originalFilename t"
  "status (fold assign (completedUpdate t0 out dur) t) = ''completed''"
  by (simp_all add: completedUpdate_def)

lemma runJob_succeeded:
  assumes "st (jobTrack j) = Some t" and "info \<noteq> InfoFailed"
  shows "fst (runJob st j ToolSucceeded info) (jobTrack j)
           = Some (fold assign (completedUpdate t (jobOutput j) (extendedDuration info)) t)"
  using assms
  by (cases info) (simp_all add: runJob_def getAudioTrack_def updateAudioTrack_apply)

lemma runJob_failed:
  "fst (runJob st j ToolFailed info) k = (if k = jobTrack j then map_option (fold assign errorUpdate) (st k) else st k)"
  "fst (runJob st j ToolSucceeded InfoFailed) k = (if k = jobTrack j then map_option (fold assign errorUpdate) (st k) else st k)"
  by (simp_all add: runJob_def updateAudioTrack_apply)

section \<open>Output file names\<close>

text \<open>
  Claim C9.  The name of the output file of a processing request is the base of the
  original file name, \<open>_extended_v\<close>, the number of versions in \<open>extendedPaths\<close> plus
  one, and the extension of the original file name; the job writes to the path the
  path guard returns for that name in the result directory.  Two requests in a row on a
  track with no version, the second after the first job has ended well, get names that
  end in \<open>_extended_v1\<close> and \<open>_extended_v2\<close> before the extension, and two tracks of one
  original name that hold different numbers of versions never get the same name.  When
  the path guard returns no output path the request is answered 400 and no job starts.
\<close>

theorem output_filename:
  assumes "parseInt10 idParam = Finite i" and "getAudioTrack st i = Some track"
  shows "safeFilename track =
           path_basename (originalFilename track) (path_extname (originalFilename track))
             @ ''_extended_v'' @ toString_nat (length (arrayOrEmpty (extendedPaths track)) + 1)
             @ path_extname (originalFilename track)
       \<and> (processHandler cwd st idParam body = (r, st1, Some j) \<longrightarrow>
            createSafeOutputPath cwd (resultDir cwd) (safeFilename track) = Some (jobOutput j))
       \<and> (arrayOrEmpty (extendedPaths track) = [] \<longrightarrow>
            processHandler cwd st idParam body = (r, st1, Some j) \<longrightarrow> info \<noteq> InfoFailed \<longrightarrow>
            (\<exists>track2. fst (runJob st1 j ToolSucceeded info) i = Some track2
               \<and> safeFilename track =
                   path_basename (originalFilename track) (path_extname (originalFilename track))
                     @ ''_extended_v1'' @ path_extname (originalFilename track)
               \<and> safeFilename track2 =
                   path_basename (originalFilename track) (path_extname (originalFilename track))
                     @ ''_extended_v2'' @ path_extname (originalFilename track)
               \<and> safeFilename track \<noteq> safeFilename track2))
       \<and> (originalFilename t1 = originalFilename t2 \<longrightarrow>
            length (arrayOrEmpty (extendedPaths t1)) \<noteq> length (arrayOrEmpty (extendedPaths t2)) \<longrightarrow>
            safeFilename t1 \<noteq> safeFilename t2)
       \<and> (\<not> greaterThan3 (versionCount track) \<longrightarrow> body = Some s \<longrightarrow>
            createSafeOutputPath cwd (resultDir cwd) (safeFilename track) = None \<longrightarrow>
            fst (processHandler cwd st idParam body)
              = Json 400 ''Invalid output path - unable to create safe file path''
            \<and> snd (snd (processHandler cwd st idParam body)) = None)"
proof -
  let ?base = "path_basename (originalFilename track) (path_extname (originalFilename track))"
  let ?ext = "path_extname (originalFilename track)"
  have name: "safeFilename track =
           ?base @ ''_extended_v'' @ toString_nat (length (arrayOrEmpty (extendedPaths track)) + 1) @ ?ext"
    by (simp add: safeFilename_def Let_def)
  have out: "processHandler cwd st idParam body = (r, st1, Some j) \<longrightarrow>
            createSafeOutputPath cwd (resultDir cwd) (safeFilename track) = Some (jobOutput j)"
    using processHandler_accepted [OF assms] by blast
  have seq: "\<exists>track2. fst (runJob st1 j ToolSucceeded info) i = Some track2
               \<and> safeFilename track = ?base @ ''_extended_v1'' @ ?ext
               \<and> safeFilename track2 = ?base @ ''_extended_v2'' @ ?ext
               \<and> safeFilename track \<noteq> safeFilename track2"
    if fresh: "arrayOrEmpty (extendedPaths track) = []"
      and acc: "processHandler cwd st idParam body = (r, st1, Some j)"
      and info: "info \<noteq> InfoFailed"
  proof -
    from processHandler_accepted [OF assms acc] obtain s'
      where st1: "st1 = updateAudioTrack st i (dispatchUpdate track s')" and j: "jobTrack j = i"
      by blast
    let ?track1 = "fold assign (dispatchUpdate track s') track"
    have t1: "st1 (jobTrack j) = Some ?track1"
      using assms(2) by (simp add: st1 j updateAudioTrack_apply getAudioTrack_def)
    let ?track2 = "fold assign (completedUpdate ?track1 (jobOutput j) (extendedDuration info)) ?track1"
    have t2: "fst (runJob st1 j ToolSucceeded info) i = Some ?track2"
      using runJob_succeeded [where st = st1 and j = j, OF t1 info] by (simp add: j)
    have paths2: "arrayOrEmpty (extendedPaths ?track2) = [Some (jobOutput j)]"
      using fresh by (simp add: completedUpdate_fields dispatchUpdate_fields arrayOrEmpty_def)
    have file2: "originalFilename ?track2 = originalFilename track"
      by (simp add: completedUpdate_fields dispatchUpdate_fields)
    have n1: "safeFilename track = ?base @ ''_extended_v1'' @ ?ext"
      by (simp add: name fresh toString_nat_small)
    have n2: "safeFilename ?track2 = ?base @ ''_extended_v2'' @ ?ext"
      unfolding safeFilename_def Let_def paths2 file2 by (simp add: toString_nat_small)
    have "safeFilename track \<noteq> safeFilename ?track2"
      by (simp add: n1 n2)
    with t2 n1 n2 show ?thesis by blast
  qed
  have distinct: "originalFilename t1 = originalFilename t2 \<longrightarrow>
            length (arrayOrEmpty (extendedPaths t1)) \<noteq> length (arrayOrEmpty (extendedPaths t2)) \<longrightarrow>
            safeFilename t1 \<noteq> safeFilename t2"
    using safeFilename_distinct by blast
  have rejected: "\<not> greaterThan3 (versionCount track) \<longrightarrow> body = Some s \<longrightarrow>
            createSafeOutputPath cwd (resultDir cwd) (safeFilename track) = None \<longrightarrow>
            fst (processHandler cwd st idParam body)
              = Json 400 ''Invalid output path - unable to create safe file path''
            \<and> snd (snd (processHandler cwd st idParam body)) = None"
    using assms by (simp add: processHandler_def Let_def)
  from name out seq distinct rejected show ?thesis by blast
qed

theorem output_filename_witness:
  "safeFilename exampleTrack = ''song_extended_v1.mp3''
   \<and> createSafeOutputPath ''/srv'' (resultDir ''/srv'') (safeFilename exampleTrack) = Some (jobOutput exampleJob)
   \<and> (\<exists>track2.
         fst (runJob (updateAudioTrack [7 \<mapsto> exampleTrack] 7 (dispatchUpdate exampleTrack exampleSettings))
                exampleJob ToolSucceeded (Parsed (Some 200))) 7 = Some track2
         \<and> safeFilename track2 = ''song_extended_v2.mp3'')
   \<and> snd (snd (processHandler ''/srv''
         (fst (runJob (updateAudioTrack [7 \<mapsto> exampleTrack] 7 (dispatchUpdate exampleTrack exampleSettings))
                 exampleJob ToolSucceeded (Parsed (Some 200))))
         ''7'' (Some exampleSettings)))
       = Some (exampleJob\<lparr>jobOutput := ''/srv/results/song_extended_v2.mp3''\<rparr>)
   \<and> fst (processHandler ''/srv'' [7 \<mapsto> exampleTrack\<lparr>originalFilename := ''song''\<rparr>] ''7'' (Some exampleSettings))
       = Json 400 ''Invalid output path - unable to create safe file path''
   \<and> snd (snd (processHandler ''/srv'' [7 \<mapsto> exampleTrack\<lparr>originalFilename := ''song''\<rparr>] ''7''
                  (Some exampleSettings))) = None"
proof -
  have id: "parseInt10 ''7'' = Finite 7"
    by code_simp
  have track: "getAudioTrack [7 \<mapsto> exampleTrack] 7 = Some exampleTrack"
    by (simp add: getAudioTrack_def)
  have below: "\<not> greaterThan3 (versionCount exampleTrack)"
    by code_simp
  have out: "createSafeOutputPath ''/srv'' (resultDir ''/srv'') (safeFilename exampleTrack)
               = Some ''/srv/results/song_extended_v1.mp3''"
    by code_simp
  have input: "originalPath exampleTrack = ''/srv/uploads/1700000000000-42.mp3''"
    by (simp add: exampleTrack_def)
  have fresh: "arrayOrEmpty (extendedPaths exampleTrack) = []"
    by code_simp
  have parts: "path_extname (originalFilename exampleTrack) = ''.mp3''"
    "path_basename (originalFilename exampleTrack) ''.mp3'' = ''song''"
    by code_simp+
  have accepted: "processHandler ''/srv'' [7 \<mapsto> exampleTrack] ''7'' (Some exampleSettings)
      = (Json 202 ''Processing started'',
         updateAudioTrack [7 \<mapsto> exampleTrack] 7 (dispatchUpdate exampleTrack exampleSettings),
         Some exampleJob)"
    using id track below out input
    by (simp add: processHandler_def Let_def exampleJob_def)
  have info: "Parsed (Some 200) \<noteq> InfoFailed"
    by simp
  have track': "getAudioTrack [7 \<mapsto> exampleTrack\<lparr>originalFilename := ''song''\<rparr>] 7
                  = Some (exampleTrack\<lparr>originalFilename := ''song''\<rparr>)"
    by (simp add: getAudioTrack_def)
  have below': "\<not> greaterThan3 (versionCount (exampleTrack\<lparr>originalFilename := ''song''\<rparr>))"
    by code_simp
  have none: "createSafeOutputPath ''/srv'' (resultDir ''/srv'')
                (safeFilename (exampleTrack\<lparr>originalFilename := ''song''\<rparr>)) = None"
    by code_simp
  note first = output_filename [OF id track, of "''/srv''" "Some exampleSettings" "Json 202 ''Processing started''"
      "updateAudioTrack [7 \<mapsto> exampleTrack] 7 (dispatchUpdate exampleTrack exampleSettings)"
      exampleJob "Parsed (Some 200)"]
  note second = output_filename [OF id track', of "''/srv''" "Some exampleSettings" _ _ _ _ _ _ exampleSettings]
  note named = first [THEN conjunct1]
  note written = first [THEN conjunct2, THEN conjunct1, rule_format, OF accepted]
  note sequel = first [THEN conjunct2, THEN conjunct2, THEN conjunct1, rule_format, OF fresh accepted info]
  note refused = second [THEN conjunct2, THEN conjunct2, THEN conjunct2, THEN conjunct2, rule_format,
      OF below' refl none]
  from sequel have
    "\<exists>track2.
         fst (runJob (updateAudioTrack [7 \<mapsto> exampleTrack] 7 (dispatchUpdate exampleTrack exampleSettings))
                exampleJob ToolSucceeded (Parsed (Some 200))) 7 = Some track2
         \<and> safeFilename track2 = ''song_extended_v2.mp3''"
    unfolding parts by auto
  moreover from sequel have "safeFilename exampleTrack = ''song_extended_v1.mp3''"
    unfolding parts by auto
  moreover have "snd (snd (processHandler ''/srv''
         (fst (runJob (updateAudioTrack [7 \<mapsto> exampleTrack] 7 (dispatchUpdate exampleTrack exampleSettings))
                 exampleJob ToolSucceeded (Parsed (Some 200))))
         ''7'' (Some exampleSettings)))
       = Some (exampleJob\<lparr>jobOutput := ''/srv/results/song_extended_v2.mp3''\<rparr>)"
    by code_simp
  ultimately show ?thesis
    using written refused by blast
qed

section \<open>What the version count counts\<close>

text \<open>
  Claim C4, as the code has it.  The version count counts jobs that ended well, not
  dispatched attempts.  The processing route leaves the version count of every track
  as it is when it answers, whatever it answers; a job whose run of the audio tool
  fails, or whose second run fails, leaves it as it is; a job that ends well stores
  \<open>(versionCount || 1) + 1\<close>, the count re-read from the store plus one, where a count
  of 0 or null is taken as 1.  So a track created with count 0 has count 2 after one
  job that ended well, and a track with a count \<open>v\<close> other than 0 has \<open>v + 1\<close>.
\<close>

theorem versionCount_counts_successes:
  assumes "getAudioTrack st i = Some track"
  shows "map_option versionCount (fst (snd (processHandler cwd st idParam body)) i) = Some (versionCount track)
       \<and> map_option versionCount (fst (runJob st j ToolFailed info) i) = Some (versionCount track)
       \<and> map_option versionCount (fst (runJob st j ToolSucceeded InfoFailed) i) = Some (versionCount track)
       \<and> (jobTrack j = i \<longrightarrow> info \<noteq> InfoFailed \<longrightarrow>
            map_option versionCount (fst (runJob st j ToolSucceeded info) i)
              = Some (Some (orElse (versionCount track) 1 + 1)))
       \<and> (versionCount track = Some v \<longrightarrow> v \<noteq> 0 \<longrightarrow> orElse (versionCount track) 1 + 1 = v + 1)
       \<and> (versionCount track = Some 0 \<or> versionCount track = None \<longrightarrow>
            orElse (versionCount track) 1 + 1 = 2)"
proof -
  from assms have stored: "st i = Some track"
    by (simp add: getAudioTrack_def)
  have dispatch: "map_option versionCount (fst (snd (processHandler cwd st idParam body)) i)
                    = Some (versionCount track)"
    using stored
    by (auto simp add: processHandler_def Let_def updateAudioTrack_apply dispatchUpdate_fields
          split: option.splits number.splits)
  have failed: "map_option versionCount (fst (runJob st j ToolFailed info) i) = Some (versionCount track)"
    "map_option versionCount (fst (runJob st j ToolSucceeded InfoFailed) i) = Some (versionCount track)"
    using stored by (auto simp add: runJob_failed errorUpdate_def)
  have succeeded: "jobTrack j = i \<longrightarrow> info \<noteq> InfoFailed \<longrightarrow>
            map_option versionCount (fst (runJob st j ToolSucceeded info) i)
              = Some (Some (orElse (versionCount track) 1 + 1))"
  proof (intro impI)
    assume j: "jobTrack j = i" and info: "info \<noteq> InfoFailed"
    from stored j have "st (jobTrack j) = Some track" by simp
    from runJob_succeeded [where st = st and j = j, OF this info]
    show "map_option versionCount (fst (runJob st j ToolSucceeded info) i)
              = Some (Some (orElse (versionCount track) 1 + 1))"
      by (simp add: j completedUpdate_fields)
  qed
  have counts: "versionCount track = Some v \<longrightarrow> v \<noteq> 0 \<longrightarrow> orElse (versionCount track) 1 + 1 = v + 1"
    "versionCount track = Some 0 \<or> versionCount track = None \<longrightarrow> orElse (versionCount track) 1 + 1 = 2"
    by (auto simp add: orElse_def)
  from dispatch failed succeeded counts show ?thesis by blast
qed

theorem versionCount_counts_successes_witness:
  "map_option versionCount
     (fst (snd (processHandler ''/srv'' [7 \<mapsto> exampleTrack] ''7'' (Some exampleSettings))) 7) = Some (Some 0)
   \<and> map_option versionCount (fst (runJob [7 \<mapsto> exampleTrack] exampleJob ToolFailed NoOutput) 7) = Some (Some 0)
   \<and> map_option versionCount (fst (runJob [7 \<mapsto> exampleTrack] exampleJob ToolSucceeded (Parsed (Some 200))) 7)
       = Some (Some 2)
   \<and> map_option versionCount (fst (runJob [7 \<mapsto> exampleTrack2] exampleJob ToolSucceeded (Parsed (Some 200))) 7)
       = Some (Some 4)"
proof -
  have fresh: "getAudioTrack [7 \<mapsto> exampleTrack] 7 = Some exampleTrack"
    and two: "getAudioTrack [7 \<mapsto> exampleTrack2] 7 = Some exampleTrack2"
    by (simp_all add: getAudioTrack_def)
  have j: "jobTrack exampleJob = 7"
    by (simp add: exampleJob_def)
  have info: "Parsed (Some 200) \<noteq> InfoFailed"
    by simp
  have zero: "versionCount exampleTrack = Some 0"
    by (simp add: exampleTrack_def)
  have three: "versionCount exampleTrack2 = Some 3"
    by (simp add: exampleTrack2_def)
  have nonzero: "(3::int) \<noteq> 0"
    by simp
  note a = versionCount_counts_successes [OF fresh, of "''/srv''" "''7''" "Some exampleSettings" exampleJob NoOutput]
  note b = versionCount_counts_successes [OF fresh, of _ _ _ exampleJob "Parsed (Some 200)"]
  note c = versionCount_counts_successes [OF two, of _ _ _ exampleJob "Parsed (Some 200)" 3]
  note dispatched = a [THEN conjunct1]
  note failed = a [THEN conjunct2, THEN conjunct1]
  note first = b [THEN conjunct2, THEN conjunct2, THEN conjunct2, THEN conjunct1, rule_format, OF j info]
  note from_zero = b [THEN conjunct2, THEN conjunct2, THEN conjunct2, THEN conjunct2, THEN conjunct2,
      rule_format, OF disjI1 [OF zero]]
  note fourth = c [THEN conjunct2, THEN conjunct2, THEN conjunct2, THEN conjunct1, rule_format, OF j info]
  note from_three = c [THEN conjunct2, THEN conjunct2, THEN conjunct2, THEN conjunct2, THEN conjunct1,
      rule_format, OF three nonzero]
  from dispatched failed have "map_option versionCount
     (fst (snd (processHandler ''/srv'' [7 \<mapsto> exampleTrack] ''7'' (Some exampleSettings))) 7) = Some (Some 0)
   \<and> map_option versionCount (fst (runJob [7 \<mapsto> exampleTrack] exampleJob ToolFailed NoOutput) 7) = Some (Some 0)"
    by (simp only: zero)
  moreover from first
  have "map_option versionCount (fst (runJob [7 \<mapsto> exampleTrack] exampleJob ToolSucceeded (Parsed (Some 200))) 7)
       = Some (Some 2)"
    by (simp only: from_zero)
  moreover from fourth
  have "map_option versionCount (fst (runJob [7 \<mapsto> exampleTrack2] exampleJob ToolSucceeded (Parsed (Some 200))) 7)
       = Some (Some 4)"
    by (simp only: from_three) simp
  ultimately show ?thesis by blast
qed

theorem dispatch_count_counterexample:
  "snd (snd (processHandler ''/srv'' [7 \<mapsto> exampleTrack] ''7'' (Some exampleSettings))) = Some exampleJob
   \<and> map_option versionCount
       (fst (runJob (fst (snd (processHandler ''/srv'' [7 \<mapsto> exampleTrack] ''7'' (Some exampleSettings))))
              exampleJob ToolFailed NoOutput) 7) = Some (Some 0)
   \<and> map_option versionCount
       (fst (runJob (fst (snd (processHandler ''/srv'' [7 \<mapsto> exampleTrack] ''7'' (Some exampleSettings))))
              exampleJob ToolSucceeded (Parsed (Some 200))) 7) = Some (Some 2)"
  by code_simp

section \<open>Facts about the two arrays of versions\<close>

lemma paired_completedUpdate:
  "paired t0 \<Longrightarrow> paired (fold assign (completedUpdate t0 out dur) t)"
  by (simp add: paired_def completedUpdate_fields arrayOrEmpty_def)

lemma paired_other_updates:
  "paired (fold assign (dispatchUpdate t0 s) t) = paired t"
  "paired (fold assign errorUpdate t) = paired t"
  "paired (fold assign (analysisUpdate fmt br dur tempo k) t) = paired t"
  by (simp_all add: paired_def dispatchUpdate_def errorUpdate_def analysisUpdate_def)

lemma storeCall_paired:
  assumes "(\<forall>t. fst s i = Some t \<longrightarrow> paired t) \<and> (\<forall>k t. snd s k = Some t \<longrightarrow> paired t)"
  shows "(\<forall>t. fst (storeCall i outs s c) i = Some t \<longrightarrow> paired t)
       \<and> (\<forall>k t. snd (storeCall i outs s c) k = Some t \<longrightarrow> paired t)"
proof -
  obtain st held where s: "s = (st, held)"
    by (cases s)
  from assms s have stored: "\<And>t. st i = Some t \<Longrightarrow> paired t"
    and kept: "\<And>k t. held k = Some t \<Longrightarrow> paired t"
    by simp_all
  show ?thesis
  proof (cases c)
    case (Refetch k)
    show ?thesis
    proof (cases "st i")
      case None
      with s Refetch stored kept show ?thesis
        by (simp add: getAudioTrack_def)
    next
      case (Some t)
      with stored have "paired t" by simp
      with s Refetch Some stored kept show ?thesis
        by (simp add: getAudioTrack_def)
    qed
  next
    case (Store k)
    show ?thesis
    proof (cases "held k")
      case None
      with s Store stored kept show ?thesis by simp
    next
      case (Some track)
      with kept have track: "paired track" by simp
      show ?thesis
      proof (cases "k < length outs")
        case False
        with s Store Some stored kept show ?thesis by simp
      next
        case True
        have "storeCall i outs s c =
                (updateAudioTrack st i (completedUpdate track (fst (outs ! k)) (snd (outs ! k))), held)"
          using s Store Some True by simp
        moreover have "paired t"
          if "updateAudioTrack st i (completedUpdate track (fst (outs ! k)) (snd (outs ! k))) i = Some t" for t
          using that paired_completedUpdate [OF track] by (auto simp add: updateAudioTrack_apply)
        ultimately show ?thesis
          using kept by simp
      qed
    qed
  qed
qed

lemma foldl_paired:
  "(\<forall>t. fst s i = Some t \<longrightarrow> paired t) \<and> (\<forall>k t. snd s k = Some t \<longrightarrow> paired t) \<Longrightarrow>
   (\<forall>t. fst (foldl (storeCall i outs) s calls) i = Some t \<longrightarrow> paired t)
     \<and> (\<forall>k t. snd (foldl (storeCall i outs) s calls) k = Some t \<longrightarrow> paired t)"
proof (induction calls arbitrary: s)
  case Nil
  then show ?case by simp
next
  case (Cons c calls)
  from Cons.IH [OF storeCall_paired [OF Cons.prems, of outs c]]
  show ?case by (simp only: foldl_Cons)
qed

lemma runSchedule_paired:
  assumes "\<forall>t. getAudioTrack st i = Some t \<longrightarrow> paired t"
  shows "\<forall>t. getAudioTrack (runSchedule i outs st calls) i = Some t \<longrightarrow> paired t"
proof -
  from assms have "(\<forall>t. fst (st, Map.empty :: nat \<rightharpoonup> audioTrack) i = Some t \<longrightarrow> paired t)
      \<and> (\<forall>k t. snd (st, Map.empty :: nat \<rightharpoonup> audioTrack) k = Some t \<longrightarrow> paired t)"
    by (simp add: getAudioTrack_def)
  from foldl_paired [OF this, of outs calls] show ?thesis
    by (simp add: runSchedule_def getAudioTrack_def)
qed

lemma sequentialCalls_Suc: "sequentialCalls (Suc n) = sequentialCalls n @ [Refetch n, Store n]"
  by (simp add: sequentialCalls_def)

lemma refetch_store:
  assumes "st i = Some t" and "k < length outs"
  shows "foldl (storeCall i outs) (st, held) [Refetch k, Store k] =
           (updateAudioTrack st i (completedUpdate t (fst (outs ! k)) (snd (outs ! k))), held(k \<mapsto> t))"
  using assms by (simp add: getAudioTrack_def)

lemma sequential_prefix:
  assumes "st i = Some t" and "arrayOrEmpty (extendedPaths t) = []"
    and "arrayOrEmpty (extendedDurations t) = []" and "n \<le> length outs"
  shows "\<exists>st' held' t'. foldl (storeCall i outs) (st, held) (sequentialCalls n) = (st', held')
           \<and> st' i = Some t'
           \<and> arrayOrEmpty (extendedPaths t') = map (Some \<circ> fst) (take n outs)
           \<and> arrayOrEmpty (extendedDurations t') = map snd (take n outs)"
  using assms(4)
proof (induction n)
  case 0
  with assms(1-3) show ?case by (simp add: sequentialCalls_def)
next
  case (Suc n)
  then obtain st' held' t' where run: "foldl (storeCall i outs) (st, held) (sequentialCalls n) = (st', held')"
    and t': "st' i = Some t'"
    and paths: "arrayOrEmpty (extendedPaths t') = map (Some \<circ> fst) (take n outs)"
    and durs: "arrayOrEmpty (extendedDurations t') = map snd (take n outs)"
    by auto
  from Suc.prems have n: "n < length outs" by simp
  let ?t = "fold assign (completedUpdate t' (fst (outs ! n)) (snd (outs ! n))) t'"
  let ?st = "updateAudioTrack st' i (completedUpdate t' (fst (outs ! n)) (snd (outs ! n)))"
  have "foldl (storeCall i outs) (st, held) (sequentialCalls (Suc n)) = (?st, held'(n \<mapsto> t'))"
    unfolding sequentialCalls_Suc foldl_append run by (rule refetch_store [where st = st' and i = i, OF t' n])
  moreover have "?st i = Some ?t"
    using t' by (simp add: updateAudioTrack_apply)
  moreover have "arrayOrEmpty (extendedPaths ?t) = map (Some \<circ> fst) (take (Suc n) outs)"
    using paths n by (simp add: completedUpdate_fields arrayOrEmpty_def take_Suc_conv_app_nth)
  moreover have "arrayOrEmpty (extendedDurations ?t) = map snd (take (Suc n) outs)"
    using durs n by (simp add: completedUpdate_fields arrayOrEmpty_def take_Suc_conv_app_nth)
  ultimately show ?case by blast
qed

lemma sequential_all:
  assumes "getAudioTrack st i = Some t" and "arrayOrEmpty (extendedPaths t) = []"
    and "arrayOrEmpty (extendedDurations t) = []"
  shows "\<exists>t'. getAudioTrack (runSchedule i outs st (sequentialCalls (length outs))) i = Some t'
           \<and> arrayOrEmpty (extendedPaths t') = map (Some \<circ> fst) outs
           \<and> arrayOrEmpty (extendedDurations t') = map snd outs
           \<and> length (arrayOrEmpty (extendedPaths t')) = length outs
           \<and> length (arrayOrEmpty (extendedDurations t')) = length outs"
proof -
  from assms(1) have "st i = Some t" by (simp add: getAudioTrack_def)
  from sequential_prefix [where st = st and i = i, OF this assms(2,3) le_refl, of outs Map.empty]
  obtain st' held' t' where "foldl (storeCall i outs) (st, Map.empty) (sequentialCalls (length outs)) = (st', held')"
    and "st' i = Some t'"
    and "arrayOrEmpty (extendedPaths t') = map (Some \<circ> fst) outs"
    and "arrayOrEmpty (extendedDurations t') = map snd outs"
    by auto
  then show ?thesis
    by (simp add: runSchedule_def getAudioTrack_def)
qed

lemma runJob_refetch_store:
  assumes "getAudioTrack st i = Some t" and "jobTrack j = i" and "info \<noteq> InfoFailed"
    and "k < length outs" and "outs ! k = (jobOutput j, extendedDuration info)"
  shows "fst (runJob st j ToolSucceeded info) = runSchedule i outs st [Refetch k, Store k]"
proof -
  from assms(1) have stored: "st i = Some t" by (simp add: getAudioTrack_def)
  have "runSchedule i outs st [Refetch k, Store k]
          = updateAudioTrack st i (completedUpdate t (jobOutput j) (extendedDuration info))"
    unfolding runSchedule_def refetch_store [where st = st and i = i, OF stored assms(4)] by (simp add: assms(5))
  moreover have "fst (runJob st j ToolSucceeded info)
          = updateAudioTrack st i (completedUpdate t (jobOutput j) (extendedDuration info))"
    using assms(1-3) by (cases info) (simp_all add: runJob_def)
  ultimately show ?thesis by simp
qed

section \<open>The append invariant\<close>

text \<open>
  Claim C5, as the code has it.  Every update of a track that the code writes keeps the
  two arrays of versions at one length: the updates of the upload analysis, of the
  dispatch and of a failed job do not touch them, and the update of a successful job
  writes both, each the array of the re-read track with one entry appended, in one call
  on the store.  This holds however the re-reads and writes of several jobs alternate.
  When the jobs of a track run one after the other, each re-read and write with no
  other job's write in between, then after \<open>N\<close> successful jobs on a track that had no
  version both arrays have length \<open>N\<close> and hold the paths and durations of the jobs in
  their order; one such job is the re-read followed by the write.
\<close>

theorem append_invariant:
  "(paired t0 \<longrightarrow> paired (fold assign (completedUpdate t0 out dur) t))
   \<and> paired (fold assign (dispatchUpdate t0 s) t) = paired t
   \<and> paired (fold assign errorUpdate t) = paired t
   \<and> paired (fold assign (analysisUpdate fmt br d tempo k) t) = paired t
   \<and> ((\<forall>u. getAudioTrack st i = Some u \<longrightarrow> paired u) \<longrightarrow>
        (\<forall>u. getAudioTrack (runSchedule i outs st calls) i = Some u \<longrightarrow> paired u))
   \<and> (getAudioTrack st i = Some t \<longrightarrow> arrayOrEmpty (extendedPaths t) = [] \<longrightarrow>
        arrayOrEmpty (extendedDurations t) = [] \<longrightarrow>
        (\<exists>t'. getAudioTrack (runSchedule i outs st (sequentialCalls (length outs))) i = Some t'
           \<and> arrayOrEmpty (extendedPaths t') = map (Some \<circ> fst) outs
           \<and> arrayOrEmpty (extendedDurations t') = map snd outs
           \<and> length (arrayOrEmpty (extendedPaths t')) = length outs
           \<and> length (arrayOrEmpty (extendedDurations t')) = length outs))
   \<and> (getAudioTrack st i = Some t \<longrightarrow> jobTrack j = i \<longrightarrow> info \<noteq> InfoFailed \<longrightarrow>
        n < length outs \<longrightarrow> outs ! n = (jobOutput j, extendedDuration info) \<longrightarrow>
        fst (runJob st j ToolSucceeded info) = runSchedule i outs st [Refetch n, Store n])"
proof (intro conjI)
  show "paired t0 \<longrightarrow> paired (fold assign (completedUpdate t0 out dur) t)"
    using paired_completedUpdate by blast
  show "paired (fold assign (dispatchUpdate t0 s) t) = paired t"
    by (rule paired_other_updates)
  show "paired (fold assign errorUpdate t) = paired t"
    by (rule paired_other_updates)
  show "paired (fold assign (analysisUpdate fmt br d tempo k) t) = paired t"
    by (rule paired_other_updates)
  show "(\<forall>u. getAudioTrack st i = Some u \<longrightarrow> paired u) \<longrightarrow>
        (\<forall>u. getAudioTrack (runSchedule i outs st calls) i = Some u \<longrightarrow> paired u)"
    using runSchedule_paired [of st i outs calls] by blast
  show "getAudioTrack st i = Some t \<longrightarrow> arrayOrEmpty (extendedPaths t) = [] \<longrightarrow>
        arrayOrEmpty (extendedDurations t) = [] \<longrightarrow>
        (\<exists>t'. getAudioTrack (runSchedule i outs st (sequentialCalls (length outs))) i = Some t'
           \<and> arrayOrEmpty (extendedPaths t') = map (Some \<circ> fst) outs
           \<and> arrayOrEmpty (extendedDurations t') = map snd outs
           \<and> length (arrayOrEmpty (extendedPaths t')) = length outs
           \<and> length (arrayOrEmpty (extendedDurations t')) = length outs)"
    using sequential_all [of st i t outs] by blast
  show "getAudioTrack st i = Some t \<longrightarrow> jobTrack j = i \<longrightarrow> info \<noteq> InfoFailed \<longrightarrow>
        n < length outs \<longrightarrow> outs ! n = (jobOutput j, extendedDuration info) \<longrightarrow>
        fst (runJob st j ToolSucceeded info) = runSchedule i outs st [Refetch n, Store n]"
    using runJob_refetch_store [of st i t j info n outs] by blast
qed

theorem append_invariant_witness:
  "paired (fold assign (completedUpdate exampleTrack ''/srv/results/song_extended_v1.mp3'' (Some 200)) exampleTrack)
   \<and> (\<exists>u. getAudioTrack (runSchedule 7 overlappingOuts [7 \<mapsto> exampleTrack]
               [Refetch 0, Refetch 1, Store 0, Store 1]) 7 = Some u \<and> paired u)
   \<and> (\<exists>t'. getAudioTrack (runSchedule 7 exampleOuts [7 \<mapsto> exampleTrack] (sequentialCalls 2)) 7 = Some t'
         \<and> arrayOrEmpty (extendedPaths t')
              = [Some ''/srv/results/song_extended_v1.mp3'', Some ''/srv/results/song_extended_v2.mp3'']
         \<and> arrayOrEmpty (extendedDurations t') = [Some 200, None])
   \<and> fst (runJob [7 \<mapsto> exampleTrack] exampleJob ToolSucceeded (Parsed (Some 200)))
       = runSchedule 7 exampleOuts [7 \<mapsto> exampleTrack] [Refetch 0, Store 0]"
proof -
  have fresh: "paired exampleTrack"
    by code_simp
  have stored: "getAudioTrack [7 \<mapsto> exampleTrack] 7 = Some exampleTrack"
    by (simp add: getAudioTrack_def)
  have before: "paired u" if "getAudioTrack [7 \<mapsto> exampleTrack] 7 = Some u" for u
    using that fresh by (simp add: getAudioTrack_def)
  have empty: "arrayOrEmpty (extendedPaths exampleTrack) = []" "arrayOrEmpty (extendedDurations exampleTrack) = []"
    by code_simp+
  have two: "length exampleOuts = 2"
    and entries: "map (Some \<circ> fst) exampleOuts
                    = [Some ''/srv/results/song_extended_v1.mp3'', Some ''/srv/results/song_extended_v2.mp3'']"
      "map snd exampleOuts = [Some 200, None]"
    by (simp_all add: exampleOuts_def)
  have j: "jobTrack exampleJob = 7"
    and info: "Parsed (Some 200) \<noteq> InfoFailed"
    and n: "0 < length exampleOuts"
    and entry: "exampleOuts ! 0 = (jobOutput exampleJob, extendedDuration (Parsed (Some 200)))"
    by (simp_all add: exampleJob_def exampleOuts_def extendedDuration_def)
  have after: "getAudioTrack (runSchedule 7 overlappingOuts [7 \<mapsto> exampleTrack]
                 [Refetch 0, Refetch 1, Store 0, Store 1]) 7 \<noteq> None"
    by code_simp
  note written = append_invariant [where ?t0.0 = exampleTrack and t = exampleTrack
      and out = "''/srv/results/song_extended_v1.mp3''" and dur = "Some 200", THEN conjunct1, rule_format, OF fresh]
  note raced = append_invariant [where st = "[7 \<mapsto> exampleTrack]" and i = 7 and outs = overlappingOuts
      and calls = "[Refetch 0, Refetch 1, Store 0, Store 1]",
      THEN conjunct2, THEN conjunct2, THEN conjunct2, THEN conjunct2, THEN conjunct1, rule_format, OF before]
  note in_order = append_invariant [where st = "[7 \<mapsto> exampleTrack]" and i = 7 and outs = exampleOuts
      and t = exampleTrack,
      THEN conjunct2, THEN conjunct2, THEN conjunct2, THEN conjunct2, THEN conjunct2, THEN conjunct1,
      rule_format, OF stored empty]
  note one_job = append_invariant [where st = "[7 \<mapsto> exampleTrack]" and i = 7 and outs = exampleOuts
      and t = exampleTrack and j = exampleJob and info = "Parsed (Some 200)" and n = 0,
      THEN conjunct2, THEN conjunct2, THEN conjunct2, THEN conjunct2, THEN conjunct2, THEN conjunct2,
      rule_format, OF stored j info n entry]
  from after raced have "\<exists>u. getAudioTrack (runSchedule 7 overlappingOuts [7 \<mapsto> exampleTrack]
               [Refetch 0, Refetch 1, Store 0, Store 1]) 7 = Some u \<and> paired u"
    by blast
  moreover from in_order have "\<exists>t'. getAudioTrack (runSchedule 7 exampleOuts [7 \<mapsto> exampleTrack] (sequentialCalls 2)) 7 = Some t'
         \<and> arrayOrEmpty (extendedPaths t')
              = [Some ''/srv/results/song_extended_v1.mp3'', Some ''/srv/results/song_extended_v2.mp3'']
         \<and> arrayOrEmpty (extendedDurations t') = [Some 200, None]"
    unfolding two entries by blast
  ultimately show ?thesis
    using written one_job by blast
qed

theorem overlapping_jobs_counterexample:
  "length overlappingOuts = 2
   \<and> map_option extendedPaths
       (getAudioTrack (runSchedule 7 overlappingOuts [7 \<mapsto> exampleTrack]
          [Refetch 0, Refetch 1, Store 0, Store 1]) 7)
       = Some (Some [Some ''/srv/results/song_extended_v1.mp3''])
   \<and> map_option extendedDurations
       (getAudioTrack (runSchedule 7 overlappingOuts [7 \<mapsto> exampleTrack]
          [Refetch 0, Refetch 1, Store 0, Store 1]) 7)
       = Some (Some [Some 200])"
  by code_simp

section \<open>Further properties of the routes\<close>

lemma toString_succ:
  assumes "int k < 2 ^ 53"
  shows "toString (plusOne (Finite (int k))) = toString_nat (k + 1)"
proof -
  have "\<bar>int k + 1\<bar> \<le> 2 ^ 53" using assms by simp
  then have "plusOne (Finite (int k)) = Finite (int k + 1)"
    by (simp add: fromInt_safe)
  moreover have "int k + 1 = int (k + 1)" by simp
  ultimately show ?thesis by (simp only: toString_of_nat)
qed

text \<open>
  Property X1.  The name under which the download route offers the version at index
  \<open>k\<close> is the name the processing route gave the output file when the track held \<open>k\<close>
  versions, for a track of the same original file name.  An index is a number that
  holds every integer up to \<open>2 ^ 53\<close>; an array has fewer entries than that.
\<close>

theorem download_name_is_output_name:
  assumes "length (arrayOrEmpty (extendedPaths track)) = k"
    and "originalFilename track' = originalFilename track"
    and "int k < 2 ^ 53"
  shows "downloadFilename track' (Finite (int k)) = safeFilename track"
proof -
  from assms(3) have succ: "toString (plusOne (Finite (int k))) = toString_nat (k + 1)"
    by (rule toString_succ)
  show ?thesis
    by (simp only: downloadFilename_def safeFilename_def Let_def assms(1,2) succ)
qed

theorem download_name_is_output_name_witness:
  "downloadFilename exampleTrack2 (Finite (int 0)) = safeFilename exampleTrack"
proof -
  have none: "length (arrayOrEmpty (extendedPaths exampleTrack)) = 0"
    by code_simp
  have same: "originalFilename exampleTrack2 = originalFilename exampleTrack"
    by (simp add: exampleTrack2_def)
  have small: "int 0 < 2 ^ 53"
    by simp
  from download_name_is_output_name [OF none same small] show ?thesis .
qed

text \<open>
  Property X2.  A processing request that is answered 202 has set the status of its
  track to \<open>regenerate\<close> when the track already had a version and to \<open>processing\<close>
  otherwise, and has stored the settings of the request.
\<close>

theorem dispatch_status:
  assumes "parseInt10 idParam = Finite i" and "getAudioTrack st i = Some track"
    and "processHandler cwd st idParam (Some s) = (Json 202 m, st', j)"
  shows "map_option status (getAudioTrack st' i)
           = Some (if arrayOrEmpty (extendedPaths track) = [] then ''processing'' else ''regenerate'')
       \<and> map_option settings (getAudioTrack st' i) = Some (Some s)"
  using assms
  by (auto simp add: processHandler_def Let_def getAudioTrack_def updateAudioTrack_apply dispatchUpdate_def
        split: option.splits if_splits)

theorem dispatch_status_witness:
  "map_option status
     (getAudioTrack (updateAudioTrack [7 \<mapsto> exampleTrack] 7 (dispatchUpdate exampleTrack exampleSettings)) 7)
     = Some ''processing''
   \<and> map_option settings
     (getAudioTrack (updateAudioTrack [7 \<mapsto> exampleTrack] 7 (dispatchUpdate exampleTrack exampleSettings)) 7)
     = Some (Some exampleSettings)"
proof -
  have id: "parseInt10 ''7'' = Finite 7"
    by code_simp
  have track: "getAudioTrack [7 \<mapsto> exampleTrack] 7 = Some exampleTrack"
    by (simp add: getAudioTrack_def)
  have below: "\<not> greaterThan3 (versionCount exampleTrack)"
    by code_simp
  have out: "createSafeOutputPath ''/srv'' (resultDir ''/srv'') (safeFilename exampleTrack)
               = Some ''/srv/results/song_extended_v1.mp3''"
    by code_simp
  have input: "originalPath exampleTrack = ''/srv/uploads/1700000000000-42.mp3''"
    by (simp add: exampleTrack_def)
  have fresh: "arrayOrEmpty (extendedPaths exampleTrack) = []"
    by code_simp
  have accepted: "processHandler ''/srv'' [7 \<mapsto> exampleTrack] ''7'' (Some exampleSettings)
      = (Json 202 ''Processing started'',
         updateAudioTrack [7 \<mapsto> exampleTrack] 7 (dispatchUpdate exampleTrack exampleSettings),
         Some exampleJob)"
    using id track below out input
    by (simp add: processHandler_def Let_def exampleJob_def)
  from dispatch_status [OF id track accepted] show ?thesis
    by (simp add: fresh)
qed

end
